theory Spec2Isabelle
  imports
    Complex_Main
    "HOL-Library.AList"
    "HOL-Library.Char_ord"
    "HOL-Library.List_Lexorder"
    "HOL-Library.Product_Lexorder"
begin

section \<open>Data model\<close>

text \<open>
  The analytics functions of the trading journal are pure functions over an array of
  \<^verbatim>\<open>Trade\<close> objects (\<^verbatim>\<open>types/trading.ts\<close>). A JavaScript \<^verbatim>\<open>number\<close> is
  modelled as a \<^typ>\<open>real\<close>: every number is finite, so \<^verbatim>\<open>isFinite(x)\<close> is true and
  \<^verbatim>\<open>NaN\<close> and \<^verbatim>\<open>Infinity\<close> do not occur as inputs. Sums and quotients are
  taken without rounding, except in the risk progress of the dashboard, which branches
  on the sign of accumulated sums: there the operations on doubles are parameters of
  the model. A field that the code reads
  through \<^verbatim>\<open>?? 0\<close>, \<^verbatim>\<open>!= null\<close> or a truthiness test is an \<^typ>\<open>'a option\<close>,
  \<^term>\<open>None\<close> standing for the absent (\<^verbatim>\<open>undefined\<close>) field.
\<close>

datatype TradeStatus = Win | Loss | Be

text \<open>
  A JavaScript \<^verbatim>\<open>Date\<close>, seen through the getters the analytics code calls (all in
  the local time zone of the runtime): \<^verbatim>\<open>getTime()\<close> in milliseconds,
  \<^verbatim>\<open>getFullYear()\<close>, \<^verbatim>\<open>getMonth()\<close> (0 to 11), \<^verbatim>\<open>getDate()\<close> (1 to 31),
  \<^verbatim>\<open>getDay()\<close> (0 = Sunday) and \<^verbatim>\<open>getHours()\<close>.
\<close>

record Date =
  getTime :: int
  getFullYear :: nat
  getMonth :: nat
  getDate :: nat
  getDay :: nat
  getHours :: nat

text \<open>
  The forms in which \<^verbatim>\<open>openTime\<close> and \<^verbatim>\<open>closeTime\<close> arrive: absent (or any
  other falsy value), a native \<^verbatim>\<open>Date\<close>, a Firestore \<^verbatim>\<open>Timestamp\<close> (given by
  the \<^verbatim>\<open>Date\<close> its \<^verbatim>\<open>toDate()\<close> returns), or a string, given by what
  \<^verbatim>\<open>new Date(s)\<close> parses it to (\<^term>\<open>None\<close> when \<^verbatim>\<open>getTime()\<close> is \<^verbatim>\<open>NaN\<close>).
\<close>

datatype TimeField =
    Missing
  | DateObject Date
  | FirestoreTimestamp Date
  | TimeString "Date option"

text \<open>
  The fields of \<^verbatim>\<open>Trade\<close> that the analytics functions read. \<^verbatim>\<open>tradeDate\<close> is a
  string: it is given by what \<^verbatim>\<open>new Date(trade.tradeDate)\<close> yields, \<^term>\<open>None\<close> when
  the string is empty or does not parse.
\<close>

record Trade =
  openTime :: TimeField
  closeTime :: TimeField
  tradeDate :: "Date option"
  pnlCurrency :: "real option"
  rMultiple :: "real option"
  status :: TradeStatus
  tags :: "string list option"

text \<open>\<^verbatim>\<open>x ?? 0\<close> on a number that may be absent.\<close>

definition orZero :: "real option \<Rightarrow> real" where
  "orZero x = (case x of None \<Rightarrow> 0 | Some v \<Rightarrow> v)"

section \<open>Compass Score of the dashboard: the profit-factor curve\<close>

text \<open>
  \<^verbatim>\<open>scoreProfitFactor\<close> of \<^verbatim>\<open>useDashboardStats\<close>. The guard
  \<^verbatim>\<open>!isFinite(pf) || pf <= 0\<close> is \<open>pf \<le> 0\<close> on finite numbers.
\<close>

definition scoreProfitFactor :: "real \<Rightarrow> real" where
  "scoreProfitFactor pf =
     (if pf \<le> 0 then 0
      else if pf \<ge> 3 then 100
      else if pf \<ge> 2 then 80 + (pf - 2) * 20
      else if pf \<ge> 3 / 2 then 60 + (pf - 3 / 2) * 40
      else if pf \<ge> 1 then 30 + (pf - 1) * 60
      else 10)"

text \<open>
  The curve as the specification words it, for comparison with the code: 0 for
  \<open>pf \<le> 0\<close>, 30 to 60 over \<open>[0, 1]\<close>, 60 to 80 over \<open>[1, 2]\<close>, 80 to 95 over
  \<open>[2, 3]\<close>, and 100 from 3 on.
\<close>

definition specProfitFactorCurve :: "real \<Rightarrow> real" where
  "specProfitFactorCurve pf =
     (if pf \<le> 0 then 0
      else if pf \<ge> 3 then 100
      else if pf \<ge> 2 then 80 + (95 - 80) * ((pf - 2) / (3 - 2))
      else if pf \<ge> 1 then 60 + (80 - 60) * ((pf - 1) / (2 - 1))
      else 30 + (60 - 30) * ((pf - 0) / (1 - 0)))"

section \<open>Duration buckets\<close>

text \<open>\<^verbatim>\<open>classifyDurationBucket\<close> of \<^verbatim>\<open>timeAnalytics.ts\<close>.\<close>

definition classifyDurationBucket :: "real \<Rightarrow> string" where
  "classifyDurationBucket minutes =
     (if minutes < 5 then ''0-5m''
      else if minutes < 30 then ''5-30m''
      else if minutes < 120 then ''30m-120m''
      else if minutes < 360 then ''2-6h''
      else if minutes < 1440 then ''6-24h''
      else ''24h+'')"

section \<open>Risk guard\<close>

record RiskProgress =
  dailyPnlPercent :: real
  weeklyPnlPercent :: real
  todayPnl :: real
  weekPnl :: real








section \<open>Effective dates\<close>

text \<open>
  \<^verbatim>\<open>normalizeTimestamp\<close>, the same function in every analytics module. A
  \<^verbatim>\<open>Date\<close> object and the \<^verbatim>\<open>Date\<close> of a \<^verbatim>\<open>Timestamp\<close> are returned as they
  are; a string that does not parse gives \<^verbatim>\<open>null\<close>.
\<close>

fun normalizeTimestamp :: "TimeField \<Rightarrow> Date option" where
  "normalizeTimestamp Missing = None"
| "normalizeTimestamp (DateObject d) = Some d"
| "normalizeTimestamp (FirestoreTimestamp d) = Some d"
| "normalizeTimestamp (TimeString parsed) = parsed"

text \<open>
  \<^verbatim>\<open>getEffectiveDate\<close> of the dashboard and tag modules (and, under the name
  \<^verbatim>\<open>getEffectiveCloseTime\<close>, of \<^verbatim>\<open>timeAnalytics.ts\<close>): the close time, else the
  open time, else the trade date.
\<close>

definition getEffectiveDate :: "Trade \<Rightarrow> Date option" where
  "getEffectiveDate trade =
     (case normalizeTimestamp (closeTime trade) of
        Some c \<Rightarrow> Some c
      | None \<Rightarrow>
          (case normalizeTimestamp (openTime trade) of
             Some opn \<Rightarrow> Some opn
           | None \<Rightarrow> tradeDate trade))"

definition getEffectiveCloseTime :: "Trade \<Rightarrow> Date option" where
  "getEffectiveCloseTime trade =
     (case normalizeTimestamp (closeTime trade) of
        Some c \<Rightarrow> Some c
      | None \<Rightarrow>
          (case normalizeTimestamp (openTime trade) of
             Some opn \<Rightarrow> Some opn
           | None \<Rightarrow> tradeDate trade))"

definition getEffectiveOpenTime :: "Trade \<Rightarrow> Date option" where
  "getEffectiveOpenTime trade =
     (case normalizeTimestamp (openTime trade) of
        Some opn \<Rightarrow> Some opn
      | None \<Rightarrow>
          (case normalizeTimestamp (closeTime trade) of
             Some c \<Rightarrow> Some c
           | None \<Rightarrow> tradeDate trade))"

text \<open>\<^verbatim>\<open>String(n)\<close> for a natural number: its decimal digits.\<close>

fun decimal :: "nat \<Rightarrow> string" where
  "decimal n =
     (if n < 10 then [''0123456789'' ! n]
      else decimal (n div 10) @ [''0123456789'' ! (n mod 10)])"

declare decimal.simps [simp del]

text \<open>\<^verbatim>\<open>s.padStart(2, "0")\<close>.\<close>

definition padStart2 :: "string \<Rightarrow> string" where
  "padStart2 s = replicate (2 - length s) (CHR ''0'') @ s"

text \<open>
  \<^verbatim>\<open>formatDateKey\<close>: the local calendar day as \<^verbatim>\<open>YYYY-MM-DD\<close>. Keys are compared as
  strings (\<^verbatim>\<open><\<close> on JavaScript strings is the lexicographic order of the code
  units, here \<open><\<close> on \<^typ>\<open>string\<close>).
\<close>

definition formatDateKey :: "Date \<Rightarrow> string" where
  "formatDateKey date =
     decimal (getFullYear date) @ ''-'' @ padStart2 (decimal (getMonth date + 1))
       @ ''-'' @ padStart2 (decimal (getDate date))"

section \<open>Sums and maps\<close>

text \<open>\<^verbatim>\<open>xs.reduce((sum, x) => sum + f(x), 0)\<close>.\<close>

definition sumBy :: "('a \<Rightarrow> real) \<Rightarrow> 'a list \<Rightarrow> real" where
  "sumBy f xs = fold (\<lambda>x acc. acc + f x) xs 0"

text \<open>
  A JavaScript \<^verbatim>\<open>Map\<close> is an association list in insertion order with one entry per
  key: \<^verbatim>\<open>get\<close> is \<^const>\<open>map_of\<close> and \<^verbatim>\<open>set\<close> is \<^const>\<open>AList.update\<close>, which
  overwrites the entry of a key in place and appends the entry of a new key.
\<close>

text \<open>
  The get-or-create step of the aggregation loops,
  \<^verbatim>\<open>let s = map.get(k); if (!s) { s = fresh; map.set(k, s); }\<close> followed by the
  in-place changes \<open>f\<close> of \<^verbatim>\<open>s\<close>.
\<close>

definition upsert :: "'s \<Rightarrow> ('s \<Rightarrow> 's) \<Rightarrow> 'k \<Rightarrow> ('k \<times> 's) list \<Rightarrow> ('k \<times> 's) list" where
  "upsert fresh f k m =
     AList.update k (f (case map_of m k of None \<Rightarrow> fresh | Some s \<Rightarrow> s)) m"

section \<open>KPIs of the trades page\<close>

text \<open>
  \<^verbatim>\<open>TradesKpis\<close>; field \<^verbatim>\<open>f\<close> is \<open>kpiF\<close>. \<^verbatim>\<open>netPnl\<close> is \<^term>\<open>None\<close> when the
  JavaScript sum is \<^verbatim>\<open>NaN\<close>, which happens when a trade has no \<^verbatim>\<open>pnlCurrency\<close>:
  this function adds the field without \<^verbatim>\<open>?? 0\<close>.
\<close>

record TradesKpis =
  kpiNetPnl :: "real option"
  kpiWinRate :: real
  kpiProfitFactor :: "real option"
  kpiAvgR :: "real option"
  kpiTotalTrades :: nat

text \<open>\<^verbatim>\<open>sum + t.pnlCurrency\<close>, where an absent field or a \<^verbatim>\<open>NaN\<close> sum gives \<^verbatim>\<open>NaN\<close>.\<close>

definition addNumber :: "real option \<Rightarrow> real option \<Rightarrow> real option" where
  "addNumber acc x =
     (case (acc, x) of (Some a, Some b) \<Rightarrow> Some (a + b) | _ \<Rightarrow> None)"

text \<open>\<^verbatim>\<open>t.pnlCurrency > 0\<close> and \<^verbatim>\<open>t.pnlCurrency < 0\<close>: false on an absent field.\<close>

definition isPositive :: "real option \<Rightarrow> bool" where
  "isPositive x = (case x of None \<Rightarrow> False | Some v \<Rightarrow> v > 0)"

definition isNegative :: "real option \<Rightarrow> bool" where
  "isNegative x = (case x of None \<Rightarrow> False | Some v \<Rightarrow> v < 0)"

text \<open>The local constants of \<^verbatim>\<open>calculateTradesKpis\<close>.\<close>

definition kpisWins :: "Trade list \<Rightarrow> nat" where
  "kpisWins trades = length (filter (\<lambda>t. status t = Win) trades)"

definition kpisLosses :: "Trade list \<Rightarrow> nat" where
  "kpisLosses trades = length (filter (\<lambda>t. status t = Loss) trades)"

definition kpisBreakevens :: "Trade list \<Rightarrow> nat" where
  "kpisBreakevens trades = length (filter (\<lambda>t. status t = Be) trades)"

definition kpisGrossProfit :: "Trade list \<Rightarrow> real" where
  "kpisGrossProfit trades =
     sumBy (\<lambda>t. orZero (pnlCurrency t)) (filter (\<lambda>t. isPositive (pnlCurrency t)) trades)"

definition kpisGrossLoss :: "Trade list \<Rightarrow> real" where
  "kpisGrossLoss trades =
     \<bar>sumBy (\<lambda>t. orZero (pnlCurrency t)) (filter (\<lambda>t. isNegative (pnlCurrency t)) trades)\<bar>"

text \<open>\<^verbatim>\<open>calculateTradesKpis\<close> of the trades page.\<close>

definition calculateTradesKpis :: "Trade list \<Rightarrow> TradesKpis" where
  "calculateTradesKpis trades =
     (if length trades = 0 then
        \<lparr> kpiNetPnl = Some 0, kpiWinRate = 0, kpiProfitFactor = None, kpiAvgR = None,
          kpiTotalTrades = 0 \<rparr>
      else
        (let netPnl = fold (\<lambda>t acc. addNumber acc (pnlCurrency t)) trades (Some 0);
             totalTrades = length trades;
             wins = kpisWins trades;
             losses = kpisLosses trades;
             breakevens = kpisBreakevens trades;
             totalWithResult = wins + losses + breakevens;
             winRate = (if totalWithResult > 0
                        then (real wins / real totalWithResult) * 100 else 0);
             grossProfit = kpisGrossProfit trades;
             grossLoss = kpisGrossLoss trades;
             profitFactor = (if grossLoss > 0 then Some (grossProfit / grossLoss)
                             else if grossProfit > 0 then None else None);
             tradesWithR = filter (\<lambda>t. rMultiple t \<noteq> None) trades;
             avgR = (if length tradesWithR > 0
                     then Some (sumBy (\<lambda>t. orZero (rMultiple t)) tradesWithR
                                  / real (length tradesWithR))
                     else None)
         in \<lparr> kpiNetPnl = netPnl, kpiWinRate = winRate, kpiProfitFactor = profitFactor,
              kpiAvgR = avgR, kpiTotalTrades = totalTrades \<rparr>))"

section \<open>Dashboard statistics\<close>

text \<open>
  Of \<^verbatim>\<open>DashboardStats\<close> this section keeps the KPIs and the win-rate and
  profit-factor metrics of the Compass Score. The risk progress, the last block of
  \<^verbatim>\<open>aggregateTrades\<close> and the only one that reads the clock, is embedded in the
  next section as \<open>computeRiskProgress\<close>. The daily series of the chart, the symbol
  table, the average position size and the drawdown, recovery and consistency metrics
  are computed from the trades independently of these and are left out. Field
  \<^verbatim>\<open>f\<close> of \<^verbatim>\<open>DashboardKpis\<close> is \<open>dashF\<close>.
\<close>

record DashboardKpis =
  dashTotalTrades :: nat
  dashTotalProfit :: real
  dashWinCount :: nat
  dashLossCount :: nat
  dashWinRate :: real
  dashAvgProfitPerTrade :: real

record CompassScoreMetric =
  metricValue :: real
  metricScore :: real

record DashboardStats =
  kpis :: DashboardKpis
  compassWinRate :: CompassScoreMetric
  compassProfitFactor :: CompassScoreMetric

text \<open>\<^verbatim>\<open>clamp\<close> and \<^verbatim>\<open>scoreWinRate\<close>.\<close>

definition clamp :: "real \<Rightarrow> real \<Rightarrow> real \<Rightarrow> real" where
  "clamp v lo hi = min hi (max lo v)"

definition scoreWinRate :: "real \<Rightarrow> real" where
  "scoreWinRate winRatePct = (if winRatePct < 0 then 0 else clamp winRatePct 0 100)"

text \<open>The local constants of \<^verbatim>\<open>aggregateTrades\<close> behind the profit factor.\<close>

definition pnlValues :: "Trade list \<Rightarrow> real list" where
  "pnlValues trades = map (\<lambda>t. orZero (pnlCurrency t)) trades"

definition grossProfit_dash :: "Trade list \<Rightarrow> real" where
  "grossProfit_dash trades = sumBy (\<lambda>v. v) (filter (\<lambda>v. v > 0) (pnlValues trades))"

definition grossLossAbs_dash :: "Trade list \<Rightarrow> real" where
  "grossLossAbs_dash trades = \<bar>sumBy (\<lambda>v. v) (filter (\<lambda>v. v < 0) (pnlValues trades))\<bar>"

text \<open>
  \<^verbatim>\<open>aggregateTrades\<close> of \<^verbatim>\<open>useDashboardStats\<close>, on the parts kept here. Its
  parameter \<^verbatim>\<open>days\<close> only bounds the daily series of the chart, which is left out.
\<close>

definition aggregateTrades :: "Trade list \<Rightarrow> DashboardStats" where
  "aggregateTrades trades =
     (let totalTrades = length trades;
          totalProfit = sumBy (\<lambda>t. orZero (pnlCurrency t)) trades;
          winCount = length (filter (\<lambda>t. orZero (pnlCurrency t) > 0) trades);
          lossCount = length (filter (\<lambda>t. orZero (pnlCurrency t) < 0) trades);
          totalWithResult = winCount + lossCount;
          winRate = (if totalWithResult > 0
                     then (real winCount / real totalWithResult) * 100 else 0);
          avgProfitPerTrade = (if totalTrades > 0 then totalProfit / real totalTrades else 0);
          grossProfit = grossProfit_dash trades;
          grossLossAbs = grossLossAbs_dash trades;
          winRatePct = winRate;
          profitFactor = (if grossLossAbs > 0 then grossProfit / grossLossAbs else 0)
      in \<lparr> kpis = \<lparr> dashTotalTrades = totalTrades, dashTotalProfit = totalProfit,
                    dashWinCount = winCount, dashLossCount = lossCount,
                    dashWinRate = winRate, dashAvgProfitPerTrade = avgProfitPerTrade \<rparr>,
           compassWinRate =
             \<lparr> metricValue = winRatePct, metricScore = scoreWinRate winRatePct \<rparr>,
           compassProfitFactor =
             \<lparr> metricValue = profitFactor, metricScore = scoreProfitFactor profitFactor \<rparr> \<rparr>)"

section \<open>Risk progress of the dashboard\<close>

text \<open>
  The risk progress compares accumulated sums with 0, so it matters that the sums are
  sums of JavaScript doubles: \<^verbatim>\<open>0.1 + 0.2 - 0.3\<close> is a small positive number.
  The three operations on doubles that the block uses are parameters of the model:
  whatever \<^verbatim>\<open>+\<close>, \<^verbatim>\<open>*\<close> and \<^verbatim>\<open>/\<close> round to, the model applies them in the
  order in which the code does. The comparisons \<^verbatim>\<open>> 0\<close> are exact on doubles.
  \<open>exactOps\<close> is the arithmetic without rounding.
\<close>

record DoubleOps =
  fadd :: "real \<Rightarrow> real \<Rightarrow> real"
  fmul :: "real \<Rightarrow> real \<Rightarrow> real"
  fdiv :: "real \<Rightarrow> real \<Rightarrow> real"

definition exactOps :: DoubleOps where
  "exactOps = \<lparr> fadd = (\<lambda>x y. x + y), fmul = (\<lambda>x y. x * y), fdiv = (\<lambda>x y. x / y) \<rparr>"

text \<open>
  \<^verbatim>\<open>allDailyPnlMap\<close>: the P&L of every day that has a dated trade, keyed by the date
  key of the effective date. \<^verbatim>\<open>map.get(k) || 0\<close>, here \<open>getOrZero\<close>, is 0 for a
  missing key.
\<close>

definition getOrZero :: "(string \<times> real) list \<Rightarrow> string \<Rightarrow> real" where
  "getOrZero m k = (case map_of m k of None \<Rightarrow> 0 | Some v \<Rightarrow> v)"

definition addDaily ::
    "DoubleOps \<Rightarrow> Trade \<Rightarrow> (string \<times> real) list \<Rightarrow> (string \<times> real) list" where
  "addDaily ops trade m =
     (case getEffectiveDate trade of
        None \<Rightarrow> m
      | Some effectiveDate \<Rightarrow>
          (let dateKey = formatDateKey effectiveDate;
               current = getOrZero m dateKey
           in AList.update dateKey (fadd ops current (orZero (pnlCurrency trade))) m))"

definition allDailyPnlMap :: "DoubleOps \<Rightarrow> Trade list \<Rightarrow> (string \<times> real) list" where
  "allDailyPnlMap ops trades = fold (addDaily ops) trades []"

text \<open>
  The three loops over the entries of the map, each adding up, from 0 and in the order
  of the entries, the days whose key satisfies a test.
\<close>

definition sumEntries ::
    "DoubleOps \<Rightarrow> (string \<Rightarrow> bool) \<Rightarrow> (string \<times> real) list \<Rightarrow> real" where
  "sumEntries ops test m =
     fold (\<lambda>(dateKey, profit) acc. if test dateKey then fadd ops acc profit else acc) m 0"

definition DEFAULT_BASE_BALANCE :: real where
  "DEFAULT_BASE_BALANCE = 10000"

text \<open>
  The calendar day of a date, and \<^verbatim>\<open>date.setDate(date.getDate() - n)\<close> on calendar
  days: \<open>n\<close> steps back, each into the previous month or year where the month or the
  year begins. Months count from 0.
\<close>

definition calendarDay :: "Date \<Rightarrow> nat \<times> nat \<times> nat" where
  "calendarDay d = (getFullYear d, getMonth d, getDate d)"

definition isLeapYear :: "nat \<Rightarrow> bool" where
  "isLeapYear y = (y mod 4 = 0 \<and> y mod 100 \<noteq> 0 \<or> y mod 400 = 0)"

definition daysInMonth :: "nat \<Rightarrow> nat \<Rightarrow> nat" where
  "daysInMonth y m =
     (if m = 1 then (if isLeapYear y then 29 else 28)
      else if m = 3 \<or> m = 5 \<or> m = 8 \<or> m = 10 then 30
      else 31)"

definition previousDay :: "nat \<times> nat \<times> nat \<Rightarrow> nat \<times> nat \<times> nat" where
  "previousDay c =
     (case c of (y, m, d) \<Rightarrow>
        if d > 1 then (y, m, d - 1)
        else if m > 0 then (y, m - 1, daysInMonth y (m - 1))
        else (y - 1, 11, 31))"

fun daysBefore :: "nat \<Rightarrow> nat \<times> nat \<times> nat \<Rightarrow> nat \<times> nat \<times> nat" where
  "daysBefore 0 c = c"
| "daysBefore (Suc n) c = daysBefore n (previousDay c)"

text \<open>
  \<^verbatim>\<open>startOfWeek(date, { weekStartsOn })\<close> of date-fns, the library the dashboard
  imports it from. The library computes
  \<^verbatim>\<open>diff = (day < weekStartsOn ? 7 : 0) + day - weekStartsOn\<close> from
  \<^verbatim>\<open>day = date.getDay()\<close>, then calls \<^verbatim>\<open>date.setDate(date.getDate() - diff)\<close> and
  \<^verbatim>\<open>date.setHours(0, 0, 0, 0)\<close>. The date it is applied to is at local midnight
  already; the instant moves back by whole days (a daylight-saving shift inside the
  week is not modelled; the risk progress reads the calendar day only).
\<close>

definition startOfWeek :: "Date \<Rightarrow> nat \<Rightarrow> Date" where
  "startOfWeek date weekStartsOn =
     (let day = getDay date;
          diff = (if day < weekStartsOn then 7 else 0) + day - weekStartsOn
      in case daysBefore diff (calendarDay date) of
           (y, m, d) \<Rightarrow>
             \<lparr> getTime = getTime date - int diff * 86400000, getFullYear = y, getMonth = m,
               getDate = d, getDay = (day + 14 - diff) mod 7, getHours = 0 \<rparr>)"

text \<open>
  The risk progress of \<^verbatim>\<open>aggregateTrades\<close>. \<open>today\<close> is the clock,
  \<^verbatim>\<open>new Date()\<close> after \<^verbatim>\<open>setHours(0, 0, 0, 0)\<close>: local midnight of the current
  day. The week starts on Monday, \<^verbatim>\<open>weekStartsOn: 1\<close>.
\<close>

definition computeRiskProgress :: "DoubleOps \<Rightarrow> Date \<Rightarrow> Trade list \<Rightarrow> RiskProgress" where
  "computeRiskProgress ops today trades =
     (let daily = allDailyPnlMap ops trades;
          todayKey = formatDateKey today;
          weekStart = startOfWeek today 1;
          startOfWeekKey = formatDateKey weekStart;
          cumulativePnLBeforeToday = sumEntries ops (\<lambda>k. k < todayKey) daily;
          cumulativePnLBeforeWeek = sumEntries ops (\<lambda>k. k < startOfWeekKey) daily;
          todayPnL = getOrZero daily todayKey;
          weekPnL = sumEntries ops (\<lambda>k. k \<ge> startOfWeekKey \<and> k \<le> todayKey) daily;
          dailyBaseBalance = (if cumulativePnLBeforeToday > 0
                              then cumulativePnLBeforeToday else DEFAULT_BASE_BALANCE);
          weeklyBaseBalance = (if cumulativePnLBeforeWeek > 0
                               then cumulativePnLBeforeWeek else DEFAULT_BASE_BALANCE)
      in \<lparr> dailyPnlPercent =
             (if dailyBaseBalance > 0
              then fmul ops (fdiv ops todayPnL dailyBaseBalance) 100 else 0),
           weeklyPnlPercent =
             (if weeklyBaseBalance > 0
              then fmul ops (fdiv ops weekPnL weeklyBaseBalance) 100 else 0),
           todayPnl = todayPnL,
           weekPnl = weekPnL \<rparr>)"

text \<open>
  For stating the risk progress: the trades whose effective date has a date key that
  satisfies a test, and the P&L of a list of trades.
\<close>

definition tradesOn :: "(string \<Rightarrow> bool) \<Rightarrow> Trade list \<Rightarrow> Trade list" where
  "tradesOn test trades =
     filter (\<lambda>t. case getEffectiveDate t of None \<Rightarrow> False
                  | Some d \<Rightarrow> test (formatDateKey d)) trades"

definition pnlOf :: "Trade list \<Rightarrow> real" where
  "pnlOf trades = sum_list (map (\<lambda>t. orZero (pnlCurrency t)) trades)"

definition dayPnl :: "(string \<Rightarrow> bool) \<Rightarrow> Trade \<Rightarrow> real" where
  "dayPnl test t =
     (case getEffectiveDate t of None \<Rightarrow> 0
      | Some d \<Rightarrow> if test (formatDateKey d) then orZero (pnlCurrency t) else 0)"

text \<open>
  The same in double arithmetic: the date keys of the dated trades in the order in
  which they first occur, the P&L of a day as the code accumulates it (from 0, trade
  by trade), and the cumulative P&L of the days whose key satisfies a test (from 0,
  day by day in the order of first occurrence).
\<close>

definition datedKeys :: "Trade list \<Rightarrow> string list" where
  "datedKeys trades =
     concat (map (\<lambda>t. case getEffectiveDate t of None \<Rightarrow> []
                       | Some d \<Rightarrow> [formatDateKey d]) trades)"

definition firstOccurrences :: "string list \<Rightarrow> string list" where
  "firstOccurrences ks = fold (\<lambda>k acc. if k \<in> set acc then acc else acc @ [k]) ks []"

definition dayKeys :: "Trade list \<Rightarrow> string list" where
  "dayKeys trades = firstOccurrences (datedKeys trades)"

definition dayTotal :: "DoubleOps \<Rightarrow> string \<Rightarrow> Trade list \<Rightarrow> real" where
  "dayTotal ops k trades =
     fold (\<lambda>t acc. fadd ops acc (orZero (pnlCurrency t))) (tradesOn (\<lambda>k'. k' = k) trades) 0"

definition cumulativeOn :: "DoubleOps \<Rightarrow> (string \<Rightarrow> bool) \<Rightarrow> Trade list \<Rightarrow> real" where
  "cumulativeOn ops test trades =
     fold (\<lambda>k acc. fadd ops acc (dayTotal ops k trades)) (filter test (dayKeys trades)) 0"

section \<open>Bucketed statistics\<close>

text \<open>
  The weekday, session, duration and tag aggregations share one shape. The counters
  and the net P&L are common to the accumulators kept in the maps and to the
  statistics returned; the accumulators add the R sums (and, for tags, the gross
  profit and loss), the statistics add the win rate and the average R.
\<close>

record StatCounts =
  tradesCount :: nat
  winsCount :: nat
  lossesCount :: nat
  breakevenCount :: nat
  netPnlCurrency :: real

record StatAcc = StatCounts +
  sumR :: real
  countR :: nat

record TagAcc = StatAcc +
  grossProfit :: real
  grossLossAbs :: real

record BucketStat = StatCounts +
  winRate :: real
  avgRMultiple :: "real option"

datatype TradingSession = Asia | London | NewYork | Other

record WeekdayStat = BucketStat +
  weekday :: nat
  label :: string

record SessionStat = BucketStat +
  session :: TradingSession

text \<open>
  Of \<^verbatim>\<open>DurationBucketStat\<close> the two bounds \<^verbatim>\<open>minMinutes\<close> and \<^verbatim>\<open>maxMinutes\<close>,
  copied from a constant table, are left out.
\<close>

record DurationBucketStat = BucketStat +
  bucketKey :: string

record TagStat = BucketStat +
  tag :: string
  profitFactor :: "real option"

record TimeAnalyticsResult =
  weekdayStats :: "WeekdayStat list"
  sessionStats :: "SessionStat list"
  durationStats :: "DurationBucketStat list"

definition emptyAcc :: StatAcc where
  "emptyAcc = \<lparr> tradesCount = 0, winsCount = 0, lossesCount = 0, breakevenCount = 0,
      netPnlCurrency = 0, sumR = 0, countR = 0 \<rparr>"

definition emptyTagAcc :: TagAcc where
  "emptyTagAcc = \<lparr> tradesCount = 0, winsCount = 0, lossesCount = 0, breakevenCount = 0,
      netPnlCurrency = 0, sumR = 0, countR = 0, grossProfit = 0, grossLossAbs = 0 \<rparr>"

text \<open>
  The update of an accumulator by one trade. The source writes this block out for
  each of the weekday, session and duration maps and again for the tag map.
\<close>

definition addTrade :: "Trade \<Rightarrow> 'a StatAcc_scheme \<Rightarrow> 'a StatAcc_scheme" where
  "addTrade trade stats =
     (let pnl = orZero (pnlCurrency trade);
          isWin = pnl > 0;
          isLoss = pnl < 0;
          isBE = (pnl = 0)
      in stats
          \<lparr> tradesCount := tradesCount stats + 1,
            winsCount := (if isWin then winsCount stats + 1 else winsCount stats),
            lossesCount := (if isLoss then lossesCount stats + 1 else lossesCount stats),
            breakevenCount :=
              (if isBE then breakevenCount stats + 1 else breakevenCount stats),
            netPnlCurrency := netPnlCurrency stats + pnl,
            sumR := (case rMultiple trade of None \<Rightarrow> sumR stats | Some r \<Rightarrow> sumR stats + r),
            countR :=
              (case rMultiple trade of None \<Rightarrow> countR stats | Some r \<Rightarrow> countR stats + 1) \<rparr>)"

definition addTagTrade :: "Trade \<Rightarrow> TagAcc \<Rightarrow> TagAcc" where
  "addTagTrade trade stats =
     (let pnl = orZero (pnlCurrency trade)
      in (addTrade trade stats)
          \<lparr> grossProfit := (if pnl > 0 then grossProfit stats + pnl else grossProfit stats),
            grossLossAbs :=
              (if pnl < 0 then grossLossAbs stats + \<bar>pnl\<bar> else grossLossAbs stats) \<rparr>)"

text \<open>The win rate (0 to 1, over wins and losses) and the average R of a bucket.\<close>

definition bucketWinRate :: "'a StatAcc_scheme \<Rightarrow> real" where
  "bucketWinRate stats =
     (let tradesWithResult = winsCount stats + lossesCount stats
      in if tradesWithResult > 0 then real (winsCount stats) / real tradesWithResult else 0)"

definition bucketAvgR :: "'a StatAcc_scheme \<Rightarrow> real option" where
  "bucketAvgR stats =
     (if countR stats > 0 then Some (sumR stats / real (countR stats)) else None)"

section \<open>Time analytics\<close>

text \<open>\<^verbatim>\<open>classifySession\<close>, on the local hour of a date.\<close>

definition classifySession :: "Date \<Rightarrow> TradingSession" where
  "classifySession date =
     (let hour = getHours date
      in if hour \<ge> 0 \<and> hour < 7 then Asia
         else if hour \<ge> 7 \<and> hour < 14 then London
         else if hour \<ge> 14 \<and> hour < 22 then NewYork
         else Other)"

definition getWeekdayLabel :: "nat \<Rightarrow> string" where
  "getWeekdayLabel w =
     (if w < 7 then [''Sun'', ''Mon'', ''Tue'', ''Wed'', ''Thu'', ''Fri'', ''Sat''] ! w
      else ''Unknown'')"

text \<open>\<^verbatim>\<open>xs.indexOf(x)\<close>: the first index of \<open>x\<close>, or \<open>-1\<close>.\<close>

fun indexOf :: "'a list \<Rightarrow> 'a \<Rightarrow> int" where
  "indexOf [] x = - 1"
| "indexOf (y # ys) x =
     (if y = x then 0 else (let i = indexOf ys x in if i < 0 then - 1 else i + 1))"

text \<open>
  The trades that have both effective times, and what the loop computes of each: the
  holding time in minutes, the weekday and session of the open time, the duration
  bucket. \<^const>\<open>the\<close> is the source's non-null assertion \<^verbatim>\<open>!\<close>, applied to valid
  trades only.
\<close>

definition validTrades :: "Trade list \<Rightarrow> Trade list" where
  "validTrades trades =
     filter (\<lambda>t. getEffectiveOpenTime t \<noteq> None \<and> getEffectiveCloseTime t \<noteq> None) trades"

definition holdingMinutes :: "Trade \<Rightarrow> real" where
  "holdingMinutes trade =
     real_of_int (getTime (the (getEffectiveCloseTime trade))
                    - getTime (the (getEffectiveOpenTime trade))) / 60000"

definition weekdayOf :: "Trade \<Rightarrow> nat" where
  "weekdayOf trade = getDay (the (getEffectiveOpenTime trade))"

definition sessionOf :: "Trade \<Rightarrow> TradingSession" where
  "sessionOf trade = classifySession (the (getEffectiveOpenTime trade))"

definition bucketKeyOf :: "Trade \<Rightarrow> string" where
  "bucketKeyOf trade = classifyDurationBucket (holdingMinutes trade)"

text \<open>
  One map of the loop: every trade is added to the accumulator of its key. The loop of
  the source updates the weekday, the session and the duration map in turn for each
  trade; the three maps do not depend on each other.
\<close>

definition accumulateBy :: "(Trade \<Rightarrow> 'k) \<Rightarrow> Trade list \<Rightarrow> ('k \<times> StatAcc) list" where
  "accumulateBy key trades = fold (\<lambda>t. upsert emptyAcc (addTrade t) (key t)) trades []"

definition toWeekdayStat :: "nat \<times> StatAcc \<Rightarrow> WeekdayStat" where
  "toWeekdayStat e =
     (case e of (w, stats) \<Rightarrow>
        \<lparr> tradesCount = tradesCount stats, winsCount = winsCount stats,
          lossesCount = lossesCount stats, breakevenCount = breakevenCount stats,
          netPnlCurrency = netPnlCurrency stats, winRate = bucketWinRate stats,
          avgRMultiple = bucketAvgR stats, weekday = w, label = getWeekdayLabel w \<rparr>)"

definition toSessionStat :: "TradingSession \<times> StatAcc \<Rightarrow> SessionStat" where
  "toSessionStat e =
     (case e of (s, stats) \<Rightarrow>
        \<lparr> tradesCount = tradesCount stats, winsCount = winsCount stats,
          lossesCount = lossesCount stats, breakevenCount = breakevenCount stats,
          netPnlCurrency = netPnlCurrency stats, winRate = bucketWinRate stats,
          avgRMultiple = bucketAvgR stats, session = s \<rparr>)"

definition toDurationStat :: "string \<times> StatAcc \<Rightarrow> DurationBucketStat" where
  "toDurationStat e =
     (case e of (k, stats) \<Rightarrow>
        \<lparr> tradesCount = tradesCount stats, winsCount = winsCount stats,
          lossesCount = lossesCount stats, breakevenCount = breakevenCount stats,
          netPnlCurrency = netPnlCurrency stats, winRate = bucketWinRate stats,
          avgRMultiple = bucketAvgR stats, bucketKey = k \<rparr>)"

definition sessionOrder :: "TradingSession list" where
  "sessionOrder = [Asia, London, NewYork, Other]"

definition durationBucketOrder :: "string list" where
  "durationBucketOrder = [''0-5m'', ''5-30m'', ''30m-120m'', ''2-6h'', ''6-24h'', ''24h+'']"

text \<open>
  \<^verbatim>\<open>aggregateTimeAnalytics\<close>. \<^verbatim>\<open>Array.prototype.sort\<close> is stable, and each
  comparator is the difference of a key, so each sort is \<^const>\<open>sort_key\<close>.
\<close>

definition aggregateTimeAnalytics :: "Trade list \<Rightarrow> TimeAnalyticsResult" where
  "aggregateTimeAnalytics trades =
     (let valid = validTrades trades;
          weekdayMap = accumulateBy weekdayOf valid;
          sessionMap = accumulateBy sessionOf valid;
          durationBucketMap = accumulateBy bucketKeyOf valid
      in \<lparr> weekdayStats = sort_key weekday (map toWeekdayStat weekdayMap),
           sessionStats =
             sort_key (\<lambda>s. indexOf sessionOrder (session s)) (map toSessionStat sessionMap),
           durationStats =
             sort_key (\<lambda>s. indexOf durationBucketOrder (bucketKey s))
               (map toDurationStat durationBucketMap) \<rparr>)"

section \<open>Tag analytics\<close>

text \<open>\<^verbatim>\<open>trade.tags?.forEach\<close> runs over the tags, over nothing when they are absent.\<close>

definition tagsOf :: "Trade \<Rightarrow> string list" where
  "tagsOf trade = (case tags trade of None \<Rightarrow> [] | Some ts \<Rightarrow> ts)"

definition tradesWithTags :: "Trade list \<Rightarrow> Trade list" where
  "tradesWithTags trades =
     filter (\<lambda>t. case tags t of None \<Rightarrow> False | Some ts \<Rightarrow> length ts > 0) trades"

definition addToTags :: "Trade \<Rightarrow> (string \<times> TagAcc) list \<Rightarrow> (string \<times> TagAcc) list" where
  "addToTags trade m =
     fold (\<lambda>tg. upsert emptyTagAcc (addTagTrade trade) tg) (tagsOf trade) m"

definition tagMap :: "Trade list \<Rightarrow> (string \<times> TagAcc) list" where
  "tagMap trades = fold addToTags (tradesWithTags trades) []"

definition toTagStat :: "string \<times> TagAcc \<Rightarrow> TagStat" where
  "toTagStat e =
     (case e of (tg, stats) \<Rightarrow>
        \<lparr> tradesCount = tradesCount stats, winsCount = winsCount stats,
          lossesCount = lossesCount stats, breakevenCount = breakevenCount stats,
          netPnlCurrency = netPnlCurrency stats, winRate = bucketWinRate stats,
          avgRMultiple = bucketAvgR stats, tag = tg,
          profitFactor =
            (if grossLossAbs stats > 0 then Some (grossProfit stats / grossLossAbs stats)
             else None) \<rparr>)"

text \<open>
  \<^verbatim>\<open>aggregateTagStats\<close>. The comparator orders by net P&L descending, then by trade
  count descending: a stable sort by the pair of the two negated, in the lexicographic
  order of pairs.
\<close>

definition aggregateTagStats :: "Trade list \<Rightarrow> TagStat list" where
  "aggregateTagStats trades =
     (if length (tradesWithTags trades) = 0 then []
      else sort_key (\<lambda>s. (- netPnlCurrency s, - int (tradesCount s)))
             (map toTagStat (tagMap trades)))"

section \<open>Notions for stating the bucket properties\<close>

text \<open>The classification of a trade by the sign of its P&L, a missing P&L being 0.\<close>

definition isWin :: "Trade \<Rightarrow> bool" where
  "isWin t = (orZero (pnlCurrency t) > 0)"

definition isLoss :: "Trade \<Rightarrow> bool" where
  "isLoss t = (orZero (pnlCurrency t) < 0)"

definition isBE :: "Trade \<Rightarrow> bool" where
  "isBE t = (orZero (pnlCurrency t) = 0)"

text \<open>
  An aggregation loop, seen as a run over (key, trade) pairs, and the trades that a run
  sends to the bucket of a key.
\<close>

definition accumulate ::
    "'s \<Rightarrow> (Trade \<Rightarrow> 's \<Rightarrow> 's) \<Rightarrow> ('k \<times> Trade) list \<Rightarrow> ('k \<times> 's) list \<Rightarrow> ('k \<times> 's) list" where
  "accumulate fresh add ps m = fold (\<lambda>p. upsert fresh (add (snd p)) (fst p)) ps m"

definition hitsOf :: "'k \<Rightarrow> ('k \<times> Trade) list \<Rightarrow> Trade list" where
  "hitsOf k ps = map snd (filter (\<lambda>p. fst p = k) ps)"

definition tagPairs :: "Trade list \<Rightarrow> (string \<times> Trade) list" where
  "tagPairs trades = concat (map (\<lambda>t. map (\<lambda>tg. (tg, t)) (tagsOf t)) trades)"

text \<open>The trades that carry a tag.\<close>

definition taggedWith :: "string \<Rightarrow> Trade list \<Rightarrow> Trade list" where
  "taggedWith tg trades = filter (\<lambda>t. tg \<in> set (tagsOf t)) trades"

text \<open>The valid trades that the time analytics send to a weekday, session or duration bucket.\<close>

definition weekdayBucket :: "nat \<Rightarrow> Trade list \<Rightarrow> Trade list" where
  "weekdayBucket w trades = filter (\<lambda>t. weekdayOf t = w) (validTrades trades)"

definition sessionBucket :: "TradingSession \<Rightarrow> Trade list \<Rightarrow> Trade list" where
  "sessionBucket s trades = filter (\<lambda>t. sessionOf t = s) (validTrades trades)"

definition durationBucket :: "string \<Rightarrow> Trade list \<Rightarrow> Trade list" where
  "durationBucket k trades = filter (\<lambda>t. bucketKeyOf t = k) (validTrades trades)"

text \<open>The trades whose P&L is defined, and the gross loss of a list of trades.\<close>

definition hasPnl :: "Trade \<Rightarrow> bool" where
  "hasPnl t = (pnlCurrency t \<noteq> None)"

definition grossLossOf :: "Trade list \<Rightarrow> real" where
  "grossLossOf trades = \<bar>pnlOf (filter isLoss trades)\<bar>"

text \<open>
  For relating date keys to calendar days: the dates whose
  year has four digits (and whose month and day of the month are in range), the
  decimal digits of a number at a fixed width, and the trades whose effective date
  falls on a calendar day that satisfies a test.
\<close>

definition fourDigitYear :: "Date \<Rightarrow> bool" where
  "fourDigitYear d =
     (1000 \<le> getFullYear d \<and> getFullYear d \<le> 9999 \<and> getMonth d \<le> 11 \<and> getDate d \<le> 31)"

fun fixedWidth :: "nat \<Rightarrow> nat \<Rightarrow> string" where
  "fixedWidth 0 n = []"
| "fixedWidth (Suc k) n = fixedWidth k (n div 10) @ [''0123456789'' ! (n mod 10)]"

definition tradesWhen :: "(nat \<times> nat \<times> nat \<Rightarrow> bool) \<Rightarrow> Trade list \<Rightarrow> Trade list" where
  "tradesWhen test trades =
     filter (\<lambda>t. case getEffectiveDate t of None \<Rightarrow> False
                  | Some d \<Rightarrow> test (calendarDay d)) trades"

section \<open>Sample inputs\<close>

text \<open>
  Four days around the turn of the year 2024, each at 10:00 UTC: Friday 29 December
  2023, Monday 1 January, Friday 5 January and Saturday 6 January 2024.
\<close>

definition dec29 :: Date where
  "dec29 = \<lparr> getTime = 1703844000000, getFullYear = 2023, getMonth = 11, getDate = 29,
      getDay = 5, getHours = 10 \<rparr>"

definition jan1 :: Date where
  "jan1 = \<lparr> getTime = 1704103200000, getFullYear = 2024, getMonth = 0, getDate = 1,
      getDay = 1, getHours = 10 \<rparr>"

definition jan5 :: Date where
  "jan5 = \<lparr> getTime = 1704448800000, getFullYear = 2024, getMonth = 0, getDate = 5,
      getDay = 5, getHours = 10 \<rparr>"

definition jan6 :: Date where
  "jan6 = \<lparr> getTime = 1704535200000, getFullYear = 2024, getMonth = 0, getDate = 6,
      getDay = 6, getHours = 10 \<rparr>"

text \<open>Friday 5 January 2024 at midnight, the clock of the risk progress on that day.\<close>

definition jan5_midnight :: Date where
  "jan5_midnight = \<lparr> getTime = 1704412800000, getFullYear = 2024, getMonth = 0, getDate = 5,
      getDay = 5, getHours = 0 \<rparr>"

text \<open>
  A trade opened and closed at the instant \<open>d\<close>, with the given P&L (if any), stored
  status and tags (if any), and no R-multiple.
\<close>

definition tradeAt :: "Date \<Rightarrow> real option \<Rightarrow> TradeStatus \<Rightarrow> string list option \<Rightarrow> Trade" where
  "tradeAt d pnl st tgs =
     \<lparr> openTime = DateObject d, closeTime = DateObject d, tradeDate = Some d,
       pnlCurrency = pnl, rMultiple = None, status = st, tags = tgs \<rparr>"

section \<open>Verified properties\<close>

subsection \<open>The profit-factor curve of the dashboard\<close>

text \<open>
  C3, as the specification states it, does not hold: at a profit factor of one half the
  specification's curve gives 45 and the code gives 10, at 1 it gives 60 against 30,
  and at 2.5 it gives 87.5 against 90.
\<close>

theorem scoreProfitFactor_differs_from_spec_curve:
  "scoreProfitFactor (1 / 2) = 10 \<and> specProfitFactorCurve (1 / 2) = 45
   \<and> scoreProfitFactor (1 / 2) \<noteq> specProfitFactorCurve (1 / 2)
   \<and> scoreProfitFactor 1 = 30 \<and> specProfitFactorCurve 1 = 60
   \<and> scoreProfitFactor (5 / 2) = 90 \<and> specProfitFactorCurve (5 / 2) = 175 / 2"
  by (simp add: scoreProfitFactor_def specProfitFactorCurve_def)

text \<open>
  C3, amended: the profit-factor sub-score of the dashboard Compass Score is 0 for
  \<open>pf \<le> 0\<close>, the constant 10 for \<open>0 < pf < 1\<close>, linearly interpolated from 30 to 60
  as \<open>pf\<close> goes from 1 to 1.5, from 60 to 80 as it goes from 1.5 to 2, from 80 to 100
  as it goes from 2 to 3, and 100 for \<open>pf \<ge> 3\<close>.
\<close>

theorem scoreProfitFactor_curve:
  "(pf \<le> 0 \<longrightarrow> scoreProfitFactor pf = 0)
   \<and> (0 < pf \<and> pf < 1 \<longrightarrow> scoreProfitFactor pf = 10)
   \<and> (1 \<le> pf \<and> pf < 3 / 2 \<longrightarrow>
        scoreProfitFactor pf = 30 + (60 - 30) * ((pf - 1) / (3 / 2 - 1)))
   \<and> (3 / 2 \<le> pf \<and> pf < 2 \<longrightarrow>
        scoreProfitFactor pf = 60 + (80 - 60) * ((pf - 3 / 2) / (2 - 3 / 2)))
   \<and> (2 \<le> pf \<and> pf < 3 \<longrightarrow>
        scoreProfitFactor pf = 80 + (100 - 80) * ((pf - 2) / (3 - 2)))
   \<and> (3 \<le> pf \<longrightarrow> scoreProfitFactor pf = 100)"
  by (simp add: scoreProfitFactor_def)

theorem scoreProfitFactor_curve_witness:
  "scoreProfitFactor (5 / 4) = 45 \<and> scoreProfitFactor (1 / 2) = 10
   \<and> scoreProfitFactor (7 / 4) = 70 \<and> scoreProfitFactor (5 / 2) = 90
   \<and> scoreProfitFactor 4 = 100 \<and> scoreProfitFactor (- 1) = 0"
  using scoreProfitFactor_curve [of "5 / 4"] scoreProfitFactor_curve [of "1 / 2"]
    scoreProfitFactor_curve [of "7 / 4"] scoreProfitFactor_curve [of "5 / 2"]
    scoreProfitFactor_curve [of 4] scoreProfitFactor_curve [of "- 1"]
  by simp

subsection \<open>Duration buckets\<close>

text \<open>
  C8: on holding minutes \<open>m \<ge> 0\<close> the bucket is \<open>0-5m\<close> exactly on \<open>[0, 5)\<close>,
  \<open>5-30m\<close> on \<open>[5, 30)\<close>, \<open>30m-120m\<close> on \<open>[30, 120)\<close>, \<open>2-6h\<close> on \<open>[120, 360)\<close>,
  \<open>6-24h\<close> on \<open>[360, 1440)\<close> and \<open>24h+\<close> from 1440 on; exactly 5 minutes is
  \<open>5-30m\<close> and exactly 120 minutes is \<open>2-6h\<close>.
\<close>

theorem classifyDurationBucket_half_open:
  assumes "0 \<le> m"
  shows "(classifyDurationBucket m = ''0-5m'' \<longleftrightarrow> 0 \<le> m \<and> m < 5)
     \<and> (classifyDurationBucket m = ''5-30m'' \<longleftrightarrow> 5 \<le> m \<and> m < 30)
     \<and> (classifyDurationBucket m = ''30m-120m'' \<longleftrightarrow> 30 \<le> m \<and> m < 120)
     \<and> (classifyDurationBucket m = ''2-6h'' \<longleftrightarrow> 120 \<le> m \<and> m < 360)
     \<and> (classifyDurationBucket m = ''6-24h'' \<longleftrightarrow> 360 \<le> m \<and> m < 1440)
     \<and> (classifyDurationBucket m = ''24h+'' \<longleftrightarrow> 1440 \<le> m)
     \<and> classifyDurationBucket 5 = ''5-30m''
     \<and> classifyDurationBucket 120 = ''2-6h''"
  using assms by (simp add: classifyDurationBucket_def)

theorem classifyDurationBucket_half_open_witness:
  "classifyDurationBucket 5 = ''5-30m'' \<and> classifyDurationBucket 120 = ''2-6h''
   \<and> classifyDurationBucket (9 / 2) \<noteq> ''5-30m''
   \<and> classifyDurationBucket 2000 = ''24h+''"
  using classifyDurationBucket_half_open [of 5] classifyDurationBucket_half_open [of 120]
    classifyDurationBucket_half_open [of "9 / 2"] classifyDurationBucket_half_open [of 2000]
  by simp

subsection \<open>Risk guard\<close>




subsection \<open>Sums\<close>

lemma fold_add_sum_list:
  "fold (\<lambda>x acc. acc + f x) xs (a::real) = a + sum_list (map f xs)"
  by (induction xs arbitrary: a) simp_all

lemma sumBy_sum_list: "sumBy f xs = sum_list (map f xs)"
  by (simp add: sumBy_def fold_add_sum_list)

lemma sum_list_negatives_zero:
  "(\<And>x. x \<in> set xs \<Longrightarrow> x < (0::real)) \<Longrightarrow> sum_list xs = 0 \<Longrightarrow> xs = []"
proof (induction xs)
  case Nil
  then show ?case by simp
next
  case (Cons x xs)
  have "sum_list xs \<le> 0"
    using Cons.prems(1) by (intro sum_list_nonpos) (simp add: less_imp_le)
  moreover have "x < 0" using Cons.prems(1) by simp
  ultimately have "sum_list (x # xs) < 0" by simp
  with Cons.prems(2) show ?case by simp
qed

subsection \<open>Win rate of the trades page and of the dashboard\<close>

lemma status_counts: "kpisWins ts + kpisLosses ts + kpisBreakevens ts = length ts"
proof (induction ts)
  case Nil
  show ?case by (simp add: kpisWins_def kpisLosses_def kpisBreakevens_def)
next
  case (Cons t ts)
  then show ?case
    by (cases "status t") (simp_all add: kpisWins_def kpisLosses_def kpisBreakevens_def)
qed

text \<open>
  C4, as stated, does not hold of the dashboard: \<^verbatim>\<open>aggregateTrades\<close> divides the wins
  by the wins and the losses only. For a win of +100, a loss of -50 and a breakeven
  of 0 it reports a win rate of 50, where wins / (wins + losses + breakevens)
  \<open>\<times>\<close> 100 is 100 / 3, whether the three are counted by the sign of the P&L or by the
  stored status.
\<close>

theorem aggregateTrades_winRate_excludes_breakevens:
  "dashWinRate (kpis (aggregateTrades
      [tradeAt jan1 (Some 100) Win None, tradeAt jan5 (Some (- 50)) Loss None,
       tradeAt jan6 (Some 0) Be None])) = 50
   \<and> length (filter isWin
      [tradeAt jan1 (Some 100) Win None, tradeAt jan5 (Some (- 50)) Loss None,
       tradeAt jan6 (Some 0) Be None]) = 1
   \<and> length (filter isLoss
      [tradeAt jan1 (Some 100) Win None, tradeAt jan5 (Some (- 50)) Loss None,
       tradeAt jan6 (Some 0) Be None]) = 1
   \<and> length (filter isBE
      [tradeAt jan1 (Some 100) Win None, tradeAt jan5 (Some (- 50)) Loss None,
       tradeAt jan6 (Some 0) Be None]) = 1
   \<and> kpisWins
      [tradeAt jan1 (Some 100) Win None, tradeAt jan5 (Some (- 50)) Loss None,
       tradeAt jan6 (Some 0) Be None] = 1
   \<and> kpisLosses
      [tradeAt jan1 (Some 100) Win None, tradeAt jan5 (Some (- 50)) Loss None,
       tradeAt jan6 (Some 0) Be None] = 1
   \<and> kpisBreakevens
      [tradeAt jan1 (Some 100) Win None, tradeAt jan5 (Some (- 50)) Loss None,
       tradeAt jan6 (Some 0) Be None] = 1
   \<and> dashWinRate (kpis (aggregateTrades
      [tradeAt jan1 (Some 100) Win None, tradeAt jan5 (Some (- 50)) Loss None,
       tradeAt jan6 (Some 0) Be None])) \<noteq> 1 / (1 + 1 + 1) * 100"
  by (simp add: aggregateTrades_def Let_def tradeAt_def orZero_def isWin_def isLoss_def
      isBE_def kpisWins_def kpisLosses_def kpisBreakevens_def)

text \<open>
  C4, amended: for every trade list given to \<^verbatim>\<open>calculateTradesKpis\<close> of the trades
  page the win rate is wins / (wins + losses + breakevens) \<open>\<times>\<close> 100, the three counted
  by the stored status; every trade carries one of the three results, so the count of
  trades with a result is the length of the list and the win rate is 0 for want of a
  result on the empty list only. For every trade list given to \<^verbatim>\<open>aggregateTrades\<close>
  of the dashboard the win rate is wins / (wins + losses) \<open>\<times>\<close> 100, wins and losses
  counted by the sign of the P&L (a missing P&L read as 0) and breakevens left out of
  the denominator, and 0 when no trade has a P&L other than 0.
\<close>

theorem winRate_by_component:
  "kpiWinRate (calculateTradesKpis trades) =
     (if kpisWins trades + kpisLosses trades + kpisBreakevens trades = 0 then 0
      else real (kpisWins trades)
             / real (kpisWins trades + kpisLosses trades + kpisBreakevens trades) * 100)
   \<and> kpisWins trades + kpisLosses trades + kpisBreakevens trades = length trades
   \<and> dashWinRate (kpis (aggregateTrades trades)) =
     (if length (filter isWin trades) + length (filter isLoss trades) = 0 then 0
      else real (length (filter isWin trades))
             / real (length (filter isWin trades) + length (filter isLoss trades)) * 100)"
proof (intro conjI)
  show "kpiWinRate (calculateTradesKpis trades) =
     (if kpisWins trades + kpisLosses trades + kpisBreakevens trades = 0 then 0
      else real (kpisWins trades)
             / real (kpisWins trades + kpisLosses trades + kpisBreakevens trades) * 100)"
    by (simp add: calculateTradesKpis_def Let_def kpisWins_def kpisLosses_def
        kpisBreakevens_def)
  show "kpisWins trades + kpisLosses trades + kpisBreakevens trades = length trades"
    by (rule status_counts)
  show "dashWinRate (kpis (aggregateTrades trades)) =
     (if length (filter isWin trades) + length (filter isLoss trades) = 0 then 0
      else real (length (filter isWin trades))
             / real (length (filter isWin trades) + length (filter isLoss trades)) * 100)"
    by (simp add: aggregateTrades_def Let_def isWin_def [abs_def] isLoss_def [abs_def])
qed

theorem winRate_by_component_witness:
  "kpiWinRate (calculateTradesKpis
      [tradeAt jan1 (Some 100) Win None, tradeAt jan5 (Some (- 50)) Loss None,
       tradeAt jan6 (Some 0) Be None]) = 100 / 3
   \<and> dashWinRate (kpis (aggregateTrades
      [tradeAt jan1 (Some 100) Win None, tradeAt jan5 (Some (- 50)) Loss None,
       tradeAt jan6 (Some 0) Be None])) = 50
   \<and> kpiWinRate (calculateTradesKpis []) = 0
   \<and> dashWinRate (kpis (aggregateTrades [tradeAt jan6 (Some 0) Be None])) = 0"
  using winRate_by_component
      [of "[tradeAt jan1 (Some 100) Win None, tradeAt jan5 (Some (- 50)) Loss None,
            tradeAt jan6 (Some 0) Be None]"]
    winRate_by_component [of "[]"]
    winRate_by_component [of "[tradeAt jan6 (Some 0) Be None]"]
  by (simp add: kpisWins_def kpisLosses_def kpisBreakevens_def tradeAt_def isWin_def
      isLoss_def orZero_def)

subsection \<open>Profit factor of the dashboard Compass Score\<close>

lemma grossLossAbs_dash_zero_iff:
  "grossLossAbs_dash trades = 0 \<longleftrightarrow> (\<forall>t \<in> set trades. 0 \<le> orZero (pnlCurrency t))"
proof
  assume z: "grossLossAbs_dash trades = 0"
  have "filter (\<lambda>v. v < 0) (pnlValues trades) = []"
  proof (rule sum_list_negatives_zero)
    show "sum_list (filter (\<lambda>v. v < 0) (pnlValues trades)) = 0"
      using z by (simp add: grossLossAbs_dash_def sumBy_sum_list)
  qed simp
  then show "\<forall>t \<in> set trades. 0 \<le> orZero (pnlCurrency t)"
    by (auto simp: pnlValues_def filter_empty_conv not_less)
next
  assume "\<forall>t \<in> set trades. 0 \<le> orZero (pnlCurrency t)"
  then have "filter (\<lambda>v. v < 0) (pnlValues trades) = []"
    by (auto simp: pnlValues_def filter_empty_conv not_less)
  then show "grossLossAbs_dash trades = 0"
    by (simp add: grossLossAbs_dash_def sumBy_sum_list)
qed

lemma scoreProfitFactor_nonneg: "0 \<le> scoreProfitFactor pf"
  by (simp add: scoreProfitFactor_def)

text \<open>
  C10: in the dashboard Compass Score, when the gross loss is exactly zero the
  profit-factor metric has the value 0 and the sub-score 0; this is the case for every
  account of winning and breakeven trades only, and 0 is the least sub-score the curve
  gives.
\<close>

theorem compassProfitFactor_without_losses:
  "(grossLossAbs_dash trades = 0 \<longrightarrow>
      metricValue (compassProfitFactor (aggregateTrades trades)) = 0
      \<and> metricScore (compassProfitFactor (aggregateTrades trades)) = 0)
   \<and> ((\<forall>t \<in> set trades. 0 \<le> orZero (pnlCurrency t)) \<longrightarrow> grossLossAbs_dash trades = 0)
   \<and> (\<forall>pf. 0 \<le> scoreProfitFactor pf)"
proof (intro conjI impI allI)
  assume "grossLossAbs_dash trades = 0"
  then show "metricValue (compassProfitFactor (aggregateTrades trades)) = 0"
    and "metricScore (compassProfitFactor (aggregateTrades trades)) = 0"
    by (simp_all add: aggregateTrades_def Let_def scoreProfitFactor_def)
next
  assume "\<forall>t \<in> set trades. 0 \<le> orZero (pnlCurrency t)"
  then show "grossLossAbs_dash trades = 0"
    by (simp add: grossLossAbs_dash_zero_iff)
next
  fix pf show "0 \<le> scoreProfitFactor pf"
    by (rule scoreProfitFactor_nonneg)
qed

theorem compassProfitFactor_without_losses_witness:
  "grossLossAbs_dash [tradeAt jan1 (Some 100) Win None, tradeAt jan5 (Some 0) Be None] = 0
   \<and> compassProfitFactor (aggregateTrades
        [tradeAt jan1 (Some 100) Win None, tradeAt jan5 (Some 0) Be None])
      = \<lparr> metricValue = 0, metricScore = 0 \<rparr>"
proof -
  have nonneg: "\<forall>t \<in> set [tradeAt jan1 (Some 100) Win None, tradeAt jan5 (Some 0) Be None].
      0 \<le> orZero (pnlCurrency t)"
    by (simp add: tradeAt_def orZero_def)
  show ?thesis
    using nonneg compassProfitFactor_without_losses
      [of "[tradeAt jan1 (Some 100) Win None, tradeAt jan5 (Some 0) Be None]"]
    by simp
qed

subsection \<open>Risk progress\<close>

lemma sumEntries_keys:
  "fold (\<lambda>(dateKey, profit) acc. if test dateKey then fadd ops acc profit else acc)
       (map (\<lambda>k. (k, f k)) ks) a
     = fold (\<lambda>k acc. fadd ops acc (f k)) (filter test ks) a"
  by (induction ks arbitrary: a) simp_all

lemma sumEntries_map:
  "sumEntries ops test (map (\<lambda>k. (k, f k)) ks)
     = fold (\<lambda>k acc. fadd ops acc (f k)) (filter test ks) 0"
  by (simp add: sumEntries_def sumEntries_keys)

lemma getOrZero_map:
  "getOrZero (map (\<lambda>k. (k, f k)) ks) k = (if k \<in> set ks then f k else 0)"
  by (induction ks) (auto simp: getOrZero_def)

lemma update_map:
  "distinct ks \<Longrightarrow>
   AList.update k v (map (\<lambda>k'. (k', f k')) ks)
     = (if k \<in> set ks then map (\<lambda>k'. (k', if k' = k then v else f k')) ks
        else map (\<lambda>k'. (k', f k')) ks @ [(k, v)])"
  by (induction ks) auto

lemma firstOccurrences_snoc:
  "firstOccurrences (ks @ [k])
     = (if k \<in> set (firstOccurrences ks) then firstOccurrences ks
        else firstOccurrences ks @ [k])"
  by (simp add: firstOccurrences_def)

lemma firstOccurrences_Nil: "firstOccurrences [] = []"
  by (simp add: firstOccurrences_def)

lemma set_firstOccurrences: "set (firstOccurrences ks) = set ks"
  by (induction ks rule: rev_induct) (auto simp: firstOccurrences_snoc firstOccurrences_Nil)

lemma distinct_firstOccurrences: "distinct (firstOccurrences ks)"
  by (induction ks rule: rev_induct) (auto simp: firstOccurrences_snoc firstOccurrences_Nil)

lemma datedKeys_snoc:
  "datedKeys (ts @ [t])
     = datedKeys ts @ (case getEffectiveDate t of None \<Rightarrow> [] | Some d \<Rightarrow> [formatDateKey d])"
  by (simp add: datedKeys_def)

lemma tradesOn_no_key:
  "k \<notin> set (datedKeys ts) \<Longrightarrow> tradesOn (\<lambda>k'. k' = k) ts = []"
  by (induction ts) (auto simp: datedKeys_def tradesOn_def split: option.splits)

lemma dayTotal_no_key: "k \<notin> set (dayKeys ts) \<Longrightarrow> dayTotal ops k ts = 0"
  by (simp add: dayTotal_def dayKeys_def set_firstOccurrences tradesOn_no_key)

lemma dayTotal_snoc:
  "dayTotal ops k (ts @ [t])
     = (case getEffectiveDate t of
          None \<Rightarrow> dayTotal ops k ts
        | Some d \<Rightarrow> if formatDateKey d = k
                    then fadd ops (dayTotal ops k ts) (orZero (pnlCurrency t))
                    else dayTotal ops k ts)"
  by (simp add: dayTotal_def tradesOn_def split: option.splits)

lemma dayKeys_snoc:
  "dayKeys (ts @ [t])
     = (case getEffectiveDate t of
          None \<Rightarrow> dayKeys ts
        | Some d \<Rightarrow> if formatDateKey d \<in> set (dayKeys ts) then dayKeys ts
                    else dayKeys ts @ [formatDateKey d])"
  by (simp add: dayKeys_def datedKeys_snoc firstOccurrences_snoc split: option.splits)

lemma allDailyPnlMap_entries:
  "allDailyPnlMap ops ts = map (\<lambda>k. (k, dayTotal ops k ts)) (dayKeys ts)"
proof (induction ts rule: rev_induct)
  case Nil
  show ?case
    by (simp add: allDailyPnlMap_def dayKeys_def datedKeys_def firstOccurrences_Nil)
next
  case (snoc t ts)
  have step: "allDailyPnlMap ops (ts @ [t]) = addDaily ops t (allDailyPnlMap ops ts)"
    by (simp add: allDailyPnlMap_def)
  show ?case
  proof (cases "getEffectiveDate t")
    case None
    then show ?thesis
      by (simp add: step snoc.IH addDaily_def dayKeys_snoc dayTotal_snoc)
  next
    case (Some d)
    have dist: "distinct (dayKeys ts)"
      by (simp add: dayKeys_def distinct_firstOccurrences)
    have cur: "getOrZero (map (\<lambda>k. (k, dayTotal ops k ts)) (dayKeys ts)) (formatDateKey d)
        = dayTotal ops (formatDateKey d) ts"
      by (simp add: getOrZero_map dayTotal_no_key)
    show ?thesis
      by (simp add: step snoc.IH addDaily_def Let_def Some cur update_map [OF dist]
          dayKeys_snoc dayTotal_snoc)
  qed
qed

lemma allDailyPnlMap_sumEntries:
  "sumEntries ops test (allDailyPnlMap ops ts) = cumulativeOn ops test ts"
  by (simp add: allDailyPnlMap_entries sumEntries_map cumulativeOn_def)

lemma allDailyPnlMap_get:
  "getOrZero (allDailyPnlMap ops ts) k = dayTotal ops k ts"
  by (simp add: allDailyPnlMap_entries getOrZero_map dayTotal_no_key)

subsection \<open>Risk progress without rounding\<close>

lemma fadd_exact: "fadd exactOps x y = x + y"
  by (simp add: exactOps_def)

lemma fmul_exact: "fmul exactOps x y = x * y"
  by (simp add: exactOps_def)

lemma fdiv_exact: "fdiv exactOps x y = x / y"
  by (simp add: exactOps_def)

lemma dayTotal_exact: "dayTotal exactOps k ts = pnlOf (tradesOn (\<lambda>k'. k' = k) ts)"
  by (simp add: dayTotal_def fadd_exact fold_add_sum_list pnlOf_def)

lemma sumEntries_fold:
  "fold (\<lambda>(dateKey, profit) acc. if test dateKey then fadd exactOps acc profit else acc) m a
     = a + sum_list (map snd (filter (\<lambda>e. test (fst e)) m))"
  by (induction m arbitrary: a) (auto simp: case_prod_beta fadd_exact)

lemma sumEntries_sum_list:
  "sumEntries exactOps test m = sum_list (map snd (filter (\<lambda>e. test (fst e)) m))"
  by (simp add: sumEntries_def sumEntries_fold)

lemma sumEntries_Nil: "sumEntries ops test [] = 0"
  by (simp add: sumEntries_def)

lemma sumEntries_update:
  "sumEntries exactOps test (AList.update k (getOrZero m k + x) m)
     = sumEntries exactOps test m + (if test k then x else 0)"
  by (induction m) (auto simp: sumEntries_sum_list getOrZero_def)

lemma addDaily_sumEntries:
  "sumEntries exactOps test (addDaily exactOps t m) = sumEntries exactOps test m + dayPnl test t"
proof (cases "getEffectiveDate t")
  case None
  then show ?thesis by (simp add: addDaily_def dayPnl_def)
next
  case (Some d)
  have "addDaily exactOps t m
      = AList.update (formatDateKey d)
          (getOrZero m (formatDateKey d) + orZero (pnlCurrency t)) m"
    by (simp add: addDaily_def Let_def Some fadd_exact)
  then show ?thesis
    by (simp only: sumEntries_update) (simp add: dayPnl_def Some)
qed

lemma pnlOf_tradesOn: "pnlOf (tradesOn test ts) = sum_list (map (dayPnl test) ts)"
  by (induction ts) (auto simp: pnlOf_def tradesOn_def dayPnl_def split: option.splits)

lemma fold_addDaily_sumEntries:
  "sumEntries exactOps test (fold (addDaily exactOps) ts m)
     = sumEntries exactOps test m + pnlOf (tradesOn test ts)"
  by (induction ts arbitrary: m) (simp_all add: pnlOf_tradesOn addDaily_sumEntries)

lemma cumulativeOn_exact: "cumulativeOn exactOps test ts = pnlOf (tradesOn test ts)"
proof -
  have "cumulativeOn exactOps test ts = sumEntries exactOps test (allDailyPnlMap exactOps ts)"
    by (simp only: allDailyPnlMap_sumEntries)
  also have "\<dots> = pnlOf (tradesOn test ts)"
    by (simp add: allDailyPnlMap_def fold_addDaily_sumEntries sumEntries_Nil)
  finally show ?thesis .
qed

subsection \<open>Start of the week\<close>

lemma calendarDay_startOfWeek:
  "calendarDay (startOfWeek date w)
     = daysBefore ((if getDay date < w then 7 else 0) + getDay date - w) (calendarDay date)"
  by (simp add: startOfWeek_def Let_def calendarDay_def split: prod.splits)

lemma getDay_startOfWeek:
  "getDay (startOfWeek date w)
     = (getDay date + 14 - ((if getDay date < w then 7 else 0) + getDay date - w)) mod 7"
  by (simp add: startOfWeek_def Let_def split: prod.splits)

lemma weekday_cases:
  "(n::nat) \<le> 6 \<Longrightarrow> n = 0 \<or> n = 1 \<or> n = 2 \<or> n = 3 \<or> n = 4 \<or> n = 5 \<or> n = 6"
  by arith

lemma startOfWeek_monday:
  assumes "getDay today \<le> 6"
  shows "getDay (startOfWeek today 1) = 1
    \<and> calendarDay (startOfWeek today 1)
        = daysBefore ((getDay today + 6) mod 7) (calendarDay today)"
  using weekday_cases [OF assms]
  by (auto simp: calendarDay_startOfWeek getDay_startOfWeek)

lemma previousDay_less: "0 < fst c \<Longrightarrow> previousDay c < c"
  by (cases c) (auto simp: previousDay_def)

lemma fst_previousDay: "fst c - 1 \<le> fst (previousDay c)"
  by (cases c) (auto simp: previousDay_def)

lemma daysBefore_le: "n < fst c \<Longrightarrow> daysBefore n c \<le> c"
proof (induction n arbitrary: c)
  case 0
  show ?case by simp
next
  case (Suc n)
  have "n < fst (previousDay c)"
    using Suc.prems fst_previousDay [of c] by arith
  then have "daysBefore n (previousDay c) \<le> previousDay c"
    by (rule Suc.IH)
  moreover have "previousDay c < c"
    using Suc.prems by (intro previousDay_less) simp
  ultimately show ?case by simp
qed

lemma startOfWeek_le:
  assumes "getDay today \<le> 6" and "6 < getFullYear today"
  shows "calendarDay (startOfWeek today 1) \<le> calendarDay today"
proof -
  have "(getDay today + 6) mod 7 < fst (calendarDay today)"
    using assms(2) by (simp add: calendarDay_def)
  then show ?thesis
    using startOfWeek_monday [OF assms(1)] by (simp add: daysBefore_le)
qed

lemma previousDay_bounds:
  assumes "fst (snd c) \<le> 11" and "snd (snd c) \<le> 31"
  shows "fst (snd (previousDay c)) \<le> 11 \<and> snd (snd (previousDay c)) \<le> 31
    \<and> fst (previousDay c) \<le> fst c \<and> fst c - 1 \<le> fst (previousDay c)"
  using assms by (cases c) (auto simp: previousDay_def daysInMonth_def)

lemma daysBefore_bounds:
  "fst (snd c) \<le> 11 \<Longrightarrow> snd (snd c) \<le> 31 \<Longrightarrow>
   fst (snd (daysBefore n c)) \<le> 11 \<and> snd (snd (daysBefore n c)) \<le> 31
    \<and> fst (daysBefore n c) \<le> fst c \<and> fst c - n \<le> fst (daysBefore n c)"
proof (induction n arbitrary: c)
  case 0
  then show ?case by simp
next
  case (Suc n)
  have p: "fst (snd (previousDay c)) \<le> 11 \<and> snd (snd (previousDay c)) \<le> 31
    \<and> fst (previousDay c) \<le> fst c \<and> fst c - 1 \<le> fst (previousDay c)"
    using Suc.prems by (rule previousDay_bounds)
  then have "fst (snd (daysBefore n (previousDay c))) \<le> 11
    \<and> snd (snd (daysBefore n (previousDay c))) \<le> 31
    \<and> fst (daysBefore n (previousDay c)) \<le> fst (previousDay c)
    \<and> fst (previousDay c) - n \<le> fst (daysBefore n (previousDay c))"
    by (intro Suc.IH) simp_all
  with p show ?case by simp arith
qed

lemma fourDigitYear_startOfWeek:
  assumes "fourDigitYear today" and "getDay today \<le> 6" and "1006 \<le> getFullYear today"
  shows "fourDigitYear (startOfWeek today 1)"
proof -
  let ?n = "(getDay today + 6) mod 7"
  have n: "?n \<le> 6" by simp
  have c: "calendarDay (startOfWeek today 1) = daysBefore ?n (calendarDay today)"
    using startOfWeek_monday [OF assms(2)] by simp
  have b: "fst (snd (daysBefore ?n (calendarDay today))) \<le> 11
    \<and> snd (snd (daysBefore ?n (calendarDay today))) \<le> 31
    \<and> fst (daysBefore ?n (calendarDay today)) \<le> fst (calendarDay today)
    \<and> fst (calendarDay today) - ?n \<le> fst (daysBefore ?n (calendarDay today))"
    using assms(1) by (intro daysBefore_bounds) (simp_all add: fourDigitYear_def calendarDay_def)
  have f: "getFullYear (startOfWeek today 1) = fst (calendarDay (startOfWeek today 1))"
    "getMonth (startOfWeek today 1) = fst (snd (calendarDay (startOfWeek today 1)))"
    "getDate (startOfWeek today 1) = snd (snd (calendarDay (startOfWeek today 1)))"
    by (simp_all add: calendarDay_def)
  have y: "fst (calendarDay today) = getFullYear today"
    by (simp add: calendarDay_def)
  show ?thesis
    unfolding fourDigitYear_def f c
    using b n assms(1,3) unfolding y fourDigitYear_def by arith
qed

subsection \<open>Date keys and calendar days\<close>

lemma length_fixedWidth: "length (fixedWidth k n) = k"
  by (induction k arbitrary: n) simp_all

lemma less_10_cases:
  "i < (10::nat) \<Longrightarrow> i = 0 \<or> i = 1 \<or> i = 2 \<or> i = 3 \<or> i = 4 \<or> i = 5 \<or> i = 6 \<or> i = 7 \<or> i = 8 \<or> i = 9"
  by arith

lemma digit_code: "i < 10 \<Longrightarrow> (of_char (''0123456789'' ! i) :: nat) = 48 + i"
  by (drule less_10_cases) (elim disjE, simp_all)

lemma digit_less: "i < 10 \<Longrightarrow> j < 10 \<Longrightarrow> ''0123456789'' ! i < ''0123456789'' ! j \<longleftrightarrow> i < j"
  by (simp add: less_char_def digit_code)

lemma digit_eq: "i < 10 \<Longrightarrow> j < 10 \<Longrightarrow> ''0123456789'' ! i = ''0123456789'' ! j \<longleftrightarrow> i = j"
  by (metis digit_less less_irrefl linorder_neqE_nat)

lemma append_less_append:
  fixes xs ys :: "'a::linorder list"
  assumes "length xs = length ys"
  shows "xs @ us < ys @ vs \<longleftrightarrow> xs < ys \<or> xs = ys \<and> us < vs"
  using assms by (induction xs ys rule: list_induct2) auto

lemma append_eq_append_same_length:
  "length xs = length ys \<Longrightarrow> xs @ us = ys @ vs \<longleftrightarrow> xs = ys \<and> us = vs"
  by simp

lemma lex_decimal:
  "b < 10 \<Longrightarrow> d < 10 \<Longrightarrow> (10 * a + b < 10 * c + (d::nat)) = (a < c \<or> a = c \<and> b < d)"
  by arith

lemma lt_split:
  "(n::nat) < m \<longleftrightarrow> n div 10 < m div 10 \<or> n div 10 = m div 10 \<and> n mod 10 < m mod 10"
  using lex_decimal [of "n mod 10" "m mod 10" "n div 10" "m div 10"] by simp

lemma eq_split: "(n::nat) = m \<longleftrightarrow> n div 10 = m div 10 \<and> n mod 10 = m mod 10"
  by (metis div_mult_mod_eq)

lemma div10_bound: "n < 10 * 10 ^ k \<Longrightarrow> n div 10 < (10::nat) ^ k"
  by (rule less_mult_imp_div_less) (simp add: mult.commute)

lemma fixedWidth_order:
  "n < 10 ^ k \<Longrightarrow> m < 10 ^ k \<Longrightarrow>
     (fixedWidth k n < fixedWidth k m \<longleftrightarrow> n < m) \<and> (fixedWidth k n = fixedWidth k m \<longleftrightarrow> n = m)"
proof (induction k arbitrary: n m)
  case 0
  then show ?case by simp
next
  case (Suc k)
  have n: "n div 10 < 10 ^ k" and m: "m div 10 < 10 ^ k"
    using Suc.prems by (simp_all add: div10_bound)
  note IH = Suc.IH [OF n m]
  have len: "length (fixedWidth k (n div 10)) = length (fixedWidth k (m div 10))"
    by (simp add: length_fixedWidth)
  have dl: "(''0123456789'' ! (n mod 10) < ''0123456789'' ! (m mod 10)) = (n mod 10 < m mod 10)"
    by (rule digit_less) simp_all
  have de: "(''0123456789'' ! (n mod 10) = ''0123456789'' ! (m mod 10)) = (n mod 10 = m mod 10)"
    by (rule digit_eq) simp_all
  have less: "fixedWidth (Suc k) n < fixedWidth (Suc k) m
      \<longleftrightarrow> n div 10 < m div 10 \<or> n div 10 = m div 10 \<and> n mod 10 < m mod 10"
    by (simp only: fixedWidth.simps append_less_append [OF len] IH Cons_less_Cons dl de
        not_less_Nil simp_thms)
  have same: "fixedWidth (Suc k) n = fixedWidth (Suc k) m
      \<longleftrightarrow> n div 10 = m div 10 \<and> n mod 10 = m mod 10"
    by (simp only: fixedWidth.simps append_eq_append_same_length [OF len] IH de list.inject
        simp_thms)
  show ?case
    by (simp only: less same lt_split [symmetric] eq_split [symmetric] simp_thms)
qed

lemma fixedWidth_2:
  "fixedWidth 2 n = [''0123456789'' ! (n div 10 mod 10), ''0123456789'' ! (n mod 10)]"
proof -
  have "fixedWidth (Suc (Suc 0)) n
      = [''0123456789'' ! (n div 10 mod 10), ''0123456789'' ! (n mod 10)]"
    by (simp only: fixedWidth.simps append.simps)
  moreover have "(2::nat) = Suc (Suc 0)" by simp
  ultimately show ?thesis by (simp only:)
qed

lemma fixedWidth_4:
  "fixedWidth 4 n = [''0123456789'' ! (n div 10 div 10 div 10 mod 10),
      ''0123456789'' ! (n div 10 div 10 mod 10), ''0123456789'' ! (n div 10 mod 10),
      ''0123456789'' ! (n mod 10)]"
proof -
  have "fixedWidth (Suc (Suc (Suc (Suc 0)))) n
      = [''0123456789'' ! (n div 10 div 10 div 10 mod 10),
      ''0123456789'' ! (n div 10 div 10 mod 10), ''0123456789'' ! (n div 10 mod 10),
      ''0123456789'' ! (n mod 10)]"
    by (simp only: fixedWidth.simps append.simps)
  moreover have "(4::nat) = Suc (Suc (Suc (Suc 0)))" by simp
  ultimately show ?thesis by (simp only:)
qed

lemma decimal_small: "n < 10 \<Longrightarrow> decimal n = [''0123456789'' ! n]"
  by (subst decimal.simps) simp

lemma decimal_step:
  "\<not> n < 10 \<Longrightarrow> decimal n = decimal (n div 10) @ [''0123456789'' ! (n mod 10)]"
  by (subst decimal.simps) simp

lemma div10_less: "n < 10 * k \<Longrightarrow> n div 10 < (k::nat)"
  by (rule less_mult_imp_div_less) (simp add: mult.commute)

lemma div10_ge: "10 * k \<le> n \<Longrightarrow> k \<le> n div (10::nat)"
  using div_le_mono [of "10 * k" n 10] by simp

lemma decimal_four_digits:
  assumes "1000 \<le> n" "n \<le> 9999"
  shows "decimal n = fixedWidth 4 n"
proof -
  have u1: "n div 10 < 1000" using assms(2) by (intro div10_less) simp
  then have u2: "n div 10 div 10 < 100" by (intro div10_less) simp
  then have u3: "n div 10 div 10 div 10 < 10" by (intro div10_less) simp
  have l1: "100 \<le> n div 10" using assms(1) by (intro div10_ge) simp
  then have l2: "10 \<le> n div 10 div 10" by (intro div10_ge) simp
  have s0: "\<not> n < 10" using assms(1) by simp
  have s1: "\<not> n div 10 < 10" using l1 by simp
  have s2: "\<not> n div 10 div 10 < 10" using l2 by simp
  have top: "n div 10 div 10 div 10 mod 10 = n div 10 div 10 div 10"
    using u3 by (rule mod_less)
  show ?thesis
    by (simp only: decimal_step [OF s0] decimal_step [OF s1] decimal_step [OF s2]
        decimal_small [OF u3] fixedWidth_4 top append.simps)
qed

lemma padStart2_two_digits:
  assumes "n < 100"
  shows "padStart2 (decimal n) = fixedWidth 2 n"
proof (cases "n < 10")
  case True
  then have "n div 10 mod 10 = 0" and "n mod 10 = n" by simp_all
  then show ?thesis
    by (simp add: padStart2_def decimal_small [OF True] fixedWidth_2)
next
  case False
  have u: "n div 10 < 10" using assms by (intro div10_less) simp
  then have top: "n div 10 mod 10 = n div 10" by (rule mod_less)
  show ?thesis
    by (simp add: padStart2_def decimal_step [OF False] decimal_small [OF u] fixedWidth_2 top)
qed

lemma formatDateKey_fixed:
  assumes "fourDigitYear d"
  shows "formatDateKey d = fixedWidth 4 (getFullYear d) @ ''-'' @ fixedWidth 2 (getMonth d + 1)
      @ ''-'' @ fixedWidth 2 (getDate d)"
proof -
  have y: "1000 \<le> getFullYear d" "getFullYear d \<le> 9999"
    and m: "getMonth d + 1 < 100" and dd: "getDate d < 100"
    using assms by (simp_all add: fourDigitYear_def)
  show ?thesis
    by (simp only: formatDateKey_def decimal_four_digits [OF y] padStart2_two_digits [OF m]
        padStart2_two_digits [OF dd])
qed

lemma key_less:
  fixes Y M D :: string
  assumes "length Y = length Y'" "length M = length M'"
  shows "Y @ ''-'' @ M @ ''-'' @ D < Y' @ ''-'' @ M' @ ''-'' @ D'
     \<longleftrightarrow> Y < Y' \<or> Y = Y' \<and> (M < M' \<or> M = M' \<and> D < D')"
  by (simp add: append_less_append [OF assms(1)] append_less_append [OF assms(2)])

lemma key_eq:
  fixes Y M D :: string
  assumes "length Y = length Y'" "length M = length M'"
  shows "Y @ ''-'' @ M @ ''-'' @ D = Y' @ ''-'' @ M' @ ''-'' @ D'
     \<longleftrightarrow> Y = Y' \<and> M = M' \<and> D = D'"
  using assms by simp

lemma formatDateKey_order:
  assumes "fourDigitYear a" "fourDigitYear b"
  shows "formatDateKey a < formatDateKey b \<longleftrightarrow> calendarDay a < calendarDay b"
    and "formatDateKey a = formatDateKey b \<longleftrightarrow> calendarDay a = calendarDay b"
proof -
  have y: "getFullYear a < 10 ^ 4" "getFullYear b < 10 ^ 4"
    and m: "getMonth a + 1 < 10 ^ 2" "getMonth b + 1 < 10 ^ 2"
    and d: "getDate a < 10 ^ 2" "getDate b < 10 ^ 2"
    using assms by (simp_all add: fourDigitYear_def)
  note Y = fixedWidth_order [OF y] and M = fixedWidth_order [OF m] and D = fixedWidth_order [OF d]
  have ly: "length (fixedWidth 4 (getFullYear a)) = length (fixedWidth 4 (getFullYear b))"
    by (simp only: length_fixedWidth)
  have lm: "length (fixedWidth 2 (getMonth a + 1)) = length (fixedWidth 2 (getMonth b + 1))"
    by (simp only: length_fixedWidth)
  have "formatDateKey a < formatDateKey b \<longleftrightarrow>
      getFullYear a < getFullYear b \<or> getFullYear a = getFullYear b
        \<and> (getMonth a + 1 < getMonth b + 1 \<or> getMonth a + 1 = getMonth b + 1
              \<and> getDate a < getDate b)"
    by (simp only: formatDateKey_fixed [OF assms(1)] formatDateKey_fixed [OF assms(2)]
        key_less [OF ly lm] Y M D)
  then show "formatDateKey a < formatDateKey b \<longleftrightarrow> calendarDay a < calendarDay b"
    by (auto simp: calendarDay_def less_prod_def)
  have "formatDateKey a = formatDateKey b \<longleftrightarrow>
      getFullYear a = getFullYear b \<and> getMonth a + 1 = getMonth b + 1
        \<and> getDate a = getDate b"
    by (simp only: formatDateKey_fixed [OF assms(1)] formatDateKey_fixed [OF assms(2)]
        key_eq [OF ly lm] Y M D)
  then show "formatDateKey a = formatDateKey b \<longleftrightarrow> calendarDay a = calendarDay b"
    by (simp add: calendarDay_def)
qed

lemma formatDateKey_le:
  assumes "fourDigitYear a" "fourDigitYear b"
  shows "formatDateKey a \<le> formatDateKey b \<longleftrightarrow> calendarDay a \<le> calendarDay b"
  using formatDateKey_order [OF assms] by (simp only: le_less)

lemma tradesOn_tradesWhen:
  assumes "\<forall>t \<in> set trades. \<forall>d. getEffectiveDate t = Some d \<longrightarrow> test (formatDateKey d) = test' (calendarDay d)"
  shows "tradesOn test trades = tradesWhen test' trades"
  unfolding tradesOn_def tradesWhen_def
  using assms by (intro filter_cong refl) (auto split: option.splits)

lemma tradesOn_calendar:
  assumes today: "fourDigitYear today" and week: "fourDigitYear weekStart"
    and dates: "\<forall>t \<in> set trades. \<forall>d. getEffectiveDate t = Some d \<longrightarrow> fourDigitYear d"
  shows "tradesOn (\<lambda>k. k = formatDateKey today) trades
      = tradesWhen (\<lambda>c. c = calendarDay today) trades"
    and "tradesOn (\<lambda>k. k < formatDateKey today) trades
      = tradesWhen (\<lambda>c. c < calendarDay today) trades"
    and "tradesOn (\<lambda>k. k < formatDateKey weekStart) trades
      = tradesWhen (\<lambda>c. c < calendarDay weekStart) trades"
    and "tradesOn (\<lambda>k. formatDateKey weekStart \<le> k \<and> k \<le> formatDateKey today) trades
      = tradesWhen (\<lambda>c. calendarDay weekStart \<le> c \<and> c \<le> calendarDay today) trades"
proof -
  show "tradesOn (\<lambda>k. k = formatDateKey today) trades
      = tradesWhen (\<lambda>c. c = calendarDay today) trades"
    using dates today by (intro tradesOn_tradesWhen) (simp add: formatDateKey_order)
  show "tradesOn (\<lambda>k. k < formatDateKey today) trades
      = tradesWhen (\<lambda>c. c < calendarDay today) trades"
    using dates today by (intro tradesOn_tradesWhen) (simp add: formatDateKey_order)
  show "tradesOn (\<lambda>k. k < formatDateKey weekStart) trades
      = tradesWhen (\<lambda>c. c < calendarDay weekStart) trades"
    using dates week by (intro tradesOn_tradesWhen) (simp add: formatDateKey_order)
  show "tradesOn (\<lambda>k. formatDateKey weekStart \<le> k \<and> k \<le> formatDateKey today) trades
      = tradesWhen (\<lambda>c. calendarDay weekStart \<le> c \<and> c \<le> calendarDay today) trades"
    using dates today week by (intro tradesOn_tradesWhen) (simp add: formatDateKey_le)
qed

subsection \<open>The rolling equity base\<close>

lemma startOfWeek_jan5: "calendarDay (startOfWeek jan5_midnight 1) = (2024, 0, 1)"
proof -
  have steps: "daysBefore 4 (2024, 0, 5) = (2024, 0, 1)"
    by (simp add: eval_nat_numeral previousDay_def)
  have "calendarDay jan5_midnight = (2024, 0, 5)" and "getDay jan5_midnight = 5"
    by (simp_all add: calendarDay_def jan5_midnight_def)
  then show ?thesis
    by (simp add: calendarDay_startOfWeek steps)
qed

lemma formatDateKey_startOfWeek_jan5:
  "formatDateKey (startOfWeek jan5_midnight 1) = formatDateKey jan1"
proof -
  have "getFullYear (startOfWeek jan5_midnight 1) = getFullYear jan1
      \<and> getMonth (startOfWeek jan5_midnight 1) = getMonth jan1
      \<and> getDate (startOfWeek jan5_midnight 1) = getDate jan1"
    using startOfWeek_jan5 by (simp add: calendarDay_def jan1_def)
  then show ?thesis
    by (simp add: formatDateKey_def)
qed

lemma formatDateKey_jan5_midnight: "formatDateKey jan5_midnight = formatDateKey jan5"
  by (simp add: formatDateKey_def jan5_midnight_def jan5_def)

text \<open>
  C6: for every trade snapshot and every clock, today's P&L is the P&L of the trades
  dated today, the week's P&L that of the trades dated from the start of the week to
  today, and each percentage is that P&L divided by a base and multiplied by 100; the
  base is the cumulative P&L of all trades dated strictly before today (strictly
  before the start of the week) when that is positive, and 10000 otherwise. The start
  of the week is the Monday of today's week: a Monday, at most six days before today
  and not after it, and a date with a four-digit year when today is one from the year
  1006 on. The sums are the ones the code accumulates in double arithmetic,
  the P&L of a day from 0 trade by trade and a cumulative P&L from 0 day by day, and
  the statement holds whatever the three operations round to; without rounding they
  are the sums of the P&L of the trades. The code compares days by their date keys;
  for dates with four-digit years that is the order of the calendar days.
\<close>

theorem riskProgress_rolling_base:
  "todayPnl (computeRiskProgress ops today trades)
     = dayTotal ops (formatDateKey today) trades
   \<and> weekPnl (computeRiskProgress ops today trades)
     = cumulativeOn ops
         (\<lambda>k. formatDateKey (startOfWeek today 1) \<le> k \<and> k \<le> formatDateKey today) trades
   \<and> dailyPnlPercent (computeRiskProgress ops today trades)
     = fmul ops
         (fdiv ops (todayPnl (computeRiskProgress ops today trades))
           (if 0 < cumulativeOn ops (\<lambda>k. k < formatDateKey today) trades
            then cumulativeOn ops (\<lambda>k. k < formatDateKey today) trades else 10000))
         100
   \<and> weeklyPnlPercent (computeRiskProgress ops today trades)
     = fmul ops
         (fdiv ops (weekPnl (computeRiskProgress ops today trades))
           (if 0 < cumulativeOn ops (\<lambda>k. k < formatDateKey (startOfWeek today 1)) trades
            then cumulativeOn ops (\<lambda>k. k < formatDateKey (startOfWeek today 1)) trades
            else 10000))
         100
   \<and> todayPnl (computeRiskProgress exactOps today trades)
     = pnlOf (tradesOn (\<lambda>k. k = formatDateKey today) trades)
   \<and> weekPnl (computeRiskProgress exactOps today trades)
     = pnlOf (tradesOn
         (\<lambda>k. formatDateKey (startOfWeek today 1) \<le> k \<and> k \<le> formatDateKey today) trades)
   \<and> dailyPnlPercent (computeRiskProgress exactOps today trades)
     = todayPnl (computeRiskProgress exactOps today trades)
       / (if 0 < pnlOf (tradesOn (\<lambda>k. k < formatDateKey today) trades)
          then pnlOf (tradesOn (\<lambda>k. k < formatDateKey today) trades) else 10000) * 100
   \<and> weeklyPnlPercent (computeRiskProgress exactOps today trades)
     = weekPnl (computeRiskProgress exactOps today trades)
       / (if 0 < pnlOf (tradesOn (\<lambda>k. k < formatDateKey (startOfWeek today 1)) trades)
          then pnlOf (tradesOn (\<lambda>k. k < formatDateKey (startOfWeek today 1)) trades)
          else 10000) * 100
   \<and> (getDay today \<le> 6
      \<longrightarrow> getDay (startOfWeek today 1) = 1
        \<and> calendarDay (startOfWeek today 1)
            = daysBefore ((getDay today + 6) mod 7) (calendarDay today))
   \<and> (getDay today \<le> 6 \<and> 6 < getFullYear today
      \<longrightarrow> calendarDay (startOfWeek today 1) \<le> calendarDay today)
   \<and> (fourDigitYear today \<and> getDay today \<le> 6 \<and> 1006 \<le> getFullYear today
      \<longrightarrow> fourDigitYear (startOfWeek today 1))
   \<and> (fourDigitYear today \<and> fourDigitYear (startOfWeek today 1)
        \<and> (\<forall>t \<in> set trades. \<forall>d. getEffectiveDate t = Some d \<longrightarrow> fourDigitYear d)
      \<longrightarrow> tradesOn (\<lambda>k. k = formatDateKey today) trades
            = tradesWhen (\<lambda>c. c = calendarDay today) trades
          \<and> tradesOn
              (\<lambda>k. formatDateKey (startOfWeek today 1) \<le> k \<and> k \<le> formatDateKey today) trades
            = tradesWhen
              (\<lambda>c. calendarDay (startOfWeek today 1) \<le> c \<and> c \<le> calendarDay today) trades
          \<and> tradesOn (\<lambda>k. k < formatDateKey today) trades
            = tradesWhen (\<lambda>c. c < calendarDay today) trades
          \<and> tradesOn (\<lambda>k. k < formatDateKey (startOfWeek today 1)) trades
            = tradesWhen (\<lambda>c. c < calendarDay (startOfWeek today 1)) trades)"
proof (intro conjI impI)
  show today_pnl: "todayPnl (computeRiskProgress ops today trades)
     = dayTotal ops (formatDateKey today) trades" for ops
    by (simp add: computeRiskProgress_def Let_def allDailyPnlMap_get)
  show week_pnl: "weekPnl (computeRiskProgress ops today trades)
     = cumulativeOn ops
         (\<lambda>k. formatDateKey (startOfWeek today 1) \<le> k \<and> k \<le> formatDateKey today) trades"
    for ops
    by (simp add: computeRiskProgress_def Let_def allDailyPnlMap_sumEntries)
  show daily: "dailyPnlPercent (computeRiskProgress ops today trades)
     = fmul ops
         (fdiv ops (todayPnl (computeRiskProgress ops today trades))
           (if 0 < cumulativeOn ops (\<lambda>k. k < formatDateKey today) trades
            then cumulativeOn ops (\<lambda>k. k < formatDateKey today) trades else 10000))
         100" for ops
    by (simp add: computeRiskProgress_def Let_def allDailyPnlMap_sumEntries
        allDailyPnlMap_get DEFAULT_BASE_BALANCE_def)
  show weekly: "weeklyPnlPercent (computeRiskProgress ops today trades)
     = fmul ops
         (fdiv ops (weekPnl (computeRiskProgress ops today trades))
           (if 0 < cumulativeOn ops (\<lambda>k. k < formatDateKey (startOfWeek today 1)) trades
            then cumulativeOn ops (\<lambda>k. k < formatDateKey (startOfWeek today 1)) trades
            else 10000))
         100" for ops
    by (simp add: computeRiskProgress_def Let_def allDailyPnlMap_sumEntries
        allDailyPnlMap_get DEFAULT_BASE_BALANCE_def)
  show "todayPnl (computeRiskProgress exactOps today trades)
     = pnlOf (tradesOn (\<lambda>k. k = formatDateKey today) trades)"
    by (simp only: today_pnl dayTotal_exact)
  show "weekPnl (computeRiskProgress exactOps today trades)
     = pnlOf (tradesOn
         (\<lambda>k. formatDateKey (startOfWeek today 1) \<le> k \<and> k \<le> formatDateKey today) trades)"
    by (simp only: week_pnl cumulativeOn_exact)
  show "dailyPnlPercent (computeRiskProgress exactOps today trades)
     = todayPnl (computeRiskProgress exactOps today trades)
       / (if 0 < pnlOf (tradesOn (\<lambda>k. k < formatDateKey today) trades)
          then pnlOf (tradesOn (\<lambda>k. k < formatDateKey today) trades) else 10000) * 100"
    by (simp only: daily cumulativeOn_exact fmul_exact fdiv_exact)
  show "weeklyPnlPercent (computeRiskProgress exactOps today trades)
     = weekPnl (computeRiskProgress exactOps today trades)
       / (if 0 < pnlOf (tradesOn (\<lambda>k. k < formatDateKey (startOfWeek today 1)) trades)
          then pnlOf (tradesOn (\<lambda>k. k < formatDateKey (startOfWeek today 1)) trades)
          else 10000) * 100"
    by (simp only: weekly cumulativeOn_exact fmul_exact fdiv_exact)
next
  assume day: "getDay today \<le> 6"
  show "getDay (startOfWeek today 1) = 1"
    and "calendarDay (startOfWeek today 1)
        = daysBefore ((getDay today + 6) mod 7) (calendarDay today)"
    using startOfWeek_monday [OF day] by simp_all
next
  assume "getDay today \<le> 6 \<and> 6 < getFullYear today"
  then have "getDay today \<le> 6" and "6 < getFullYear today"
    by simp_all
  then show "calendarDay (startOfWeek today 1) \<le> calendarDay today"
    by (rule startOfWeek_le)
next
  assume "fourDigitYear today \<and> getDay today \<le> 6 \<and> 1006 \<le> getFullYear today"
  then have "fourDigitYear today" and "getDay today \<le> 6" and "1006 \<le> getFullYear today"
    by simp_all
  then show "fourDigitYear (startOfWeek today 1)"
    by (rule fourDigitYear_startOfWeek)
next
  assume h: "fourDigitYear today \<and> fourDigitYear (startOfWeek today 1)
      \<and> (\<forall>t \<in> set trades. \<forall>d. getEffectiveDate t = Some d \<longrightarrow> fourDigitYear d)"
  then have today: "fourDigitYear today" and week: "fourDigitYear (startOfWeek today 1)"
    and dates: "\<forall>t \<in> set trades. \<forall>d. getEffectiveDate t = Some d \<longrightarrow> fourDigitYear d"
    by simp_all
  show "tradesOn (\<lambda>k. k = formatDateKey today) trades
      = tradesWhen (\<lambda>c. c = calendarDay today) trades"
    and "tradesOn
          (\<lambda>k. formatDateKey (startOfWeek today 1) \<le> k \<and> k \<le> formatDateKey today) trades
      = tradesWhen
          (\<lambda>c. calendarDay (startOfWeek today 1) \<le> c \<and> c \<le> calendarDay today) trades"
    and "tradesOn (\<lambda>k. k < formatDateKey today) trades
      = tradesWhen (\<lambda>c. c < calendarDay today) trades"
    and "tradesOn (\<lambda>k. k < formatDateKey (startOfWeek today 1)) trades
      = tradesWhen (\<lambda>c. c < calendarDay (startOfWeek today 1)) trades"
    by (rule tradesOn_calendar [OF today week dates])+
qed

theorem riskProgress_rolling_base_witness:
  "computeRiskProgress exactOps jan5_midnight
      [tradeAt dec29 (Some 500) Win None, tradeAt jan1 (Some (- 200)) Loss None,
       tradeAt jan5 (Some (- 60)) Loss None, tradeAt jan6 (Some 1000) Win None]
     = \<lparr> dailyPnlPercent = - 20, weeklyPnlPercent = - 52, todayPnl = - 60, weekPnl = - 260 \<rparr>
   \<and> computeRiskProgress exactOps jan5_midnight
      [tradeAt dec29 (Some (- 500)) Loss None, tradeAt jan5 (Some (- 60)) Loss None]
     = \<lparr> dailyPnlPercent = - 6 / 10, weeklyPnlPercent = - 6 / 10, todayPnl = - 60,
         weekPnl = - 60 \<rparr>
   \<and> getDay (startOfWeek jan5_midnight 1) = 1
   \<and> calendarDay (startOfWeek jan5_midnight 1) = (2024, 0, 1)
   \<and> tradesOn (\<lambda>k. k < formatDateKey (startOfWeek jan5_midnight 1))
        [tradeAt dec29 (Some 500) Win None, tradeAt jan1 (Some (- 200)) Loss None,
         tradeAt jan5 (Some (- 60)) Loss None, tradeAt jan6 (Some 1000) Win None]
     = tradesWhen (\<lambda>c. c < calendarDay (startOfWeek jan5_midnight 1))
        [tradeAt dec29 (Some 500) Win None, tradeAt jan1 (Some (- 200)) Loss None,
         tradeAt jan5 (Some (- 60)) Loss None, tradeAt jan6 (Some 1000) Win None]"
proof -
  have week: "fourDigitYear (startOfWeek jan5_midnight 1)"
    using startOfWeek_jan5 by (simp add: fourDigitYear_def calendarDay_def)
  have dates: "fourDigitYear jan5_midnight \<and> fourDigitYear (startOfWeek jan5_midnight 1)
      \<and> (\<forall>t \<in> set [tradeAt dec29 (Some 500) Win None, tradeAt jan1 (Some (- 200)) Loss None,
         tradeAt jan5 (Some (- 60)) Loss None, tradeAt jan6 (Some 1000) Win None].
         \<forall>d. getEffectiveDate t = Some d \<longrightarrow> fourDigitYear d)"
    using week by (simp add: fourDigitYear_def getEffectiveDate_def tradeAt_def
        dec29_def jan1_def jan5_def jan6_def jan5_midnight_def)
  have day: "getDay jan5_midnight \<le> 6"
    by (simp add: jan5_midnight_def)
  from dates day riskProgress_rolling_base [of exactOps jan5_midnight
      "[tradeAt dec29 (Some 500) Win None, tradeAt jan1 (Some (- 200)) Loss None,
       tradeAt jan5 (Some (- 60)) Loss None, tradeAt jan6 (Some 1000) Win None]"]
  have cal: "getDay (startOfWeek jan5_midnight 1) = 1
    \<and> tradesOn (\<lambda>k. k < formatDateKey (startOfWeek jan5_midnight 1))
        [tradeAt dec29 (Some 500) Win None, tradeAt jan1 (Some (- 200)) Loss None,
         tradeAt jan5 (Some (- 60)) Loss None, tradeAt jan6 (Some 1000) Win None]
     = tradesWhen (\<lambda>c. c < calendarDay (startOfWeek jan5_midnight 1))
        [tradeAt dec29 (Some 500) Win None, tradeAt jan1 (Some (- 200)) Loss None,
         tradeAt jan5 (Some (- 60)) Loss None, tradeAt jan6 (Some 1000) Win None]"
    by blast
  have vals: "computeRiskProgress exactOps jan5_midnight
      [tradeAt dec29 (Some 500) Win None, tradeAt jan1 (Some (- 200)) Loss None,
       tradeAt jan5 (Some (- 60)) Loss None, tradeAt jan6 (Some 1000) Win None]
     = \<lparr> dailyPnlPercent = - 20, weeklyPnlPercent = - 52, todayPnl = - 60, weekPnl = - 260 \<rparr>
   \<and> computeRiskProgress exactOps jan5_midnight
      [tradeAt dec29 (Some (- 500)) Loss None, tradeAt jan5 (Some (- 60)) Loss None]
     = \<lparr> dailyPnlPercent = - 6 / 10, weeklyPnlPercent = - 6 / 10, todayPnl = - 60,
         weekPnl = - 60 \<rparr>"
    using riskProgress_rolling_base [of exactOps jan5_midnight
      "[tradeAt dec29 (Some 500) Win None, tradeAt jan1 (Some (- 200)) Loss None,
       tradeAt jan5 (Some (- 60)) Loss None, tradeAt jan6 (Some 1000) Win None]",
      unfolded formatDateKey_startOfWeek_jan5 formatDateKey_jan5_midnight]
    riskProgress_rolling_base [of exactOps jan5_midnight
      "[tradeAt dec29 (Some (- 500)) Loss None, tradeAt jan5 (Some (- 60)) Loss None]",
      unfolded formatDateKey_startOfWeek_jan5 formatDateKey_jan5_midnight]
    by (simp add: RiskProgress.equality dayTotal_exact cumulativeOn_exact fmul_exact
      fdiv_exact tradesOn_def pnlOf_def getEffectiveDate_def tradeAt_def formatDateKey_def
      decimal.simps padStart2_def orZero_def dec29_def jan1_def jan5_def jan6_def)
  from vals cal startOfWeek_jan5 show ?thesis by (simp only: simp_thms)
qed

subsection \<open>Aggregation loops and their buckets\<close>

lemma upsert_map_of:
  "map_of (upsert fresh f k m) k' =
     (if k' = k then Some (f (case map_of m k of None \<Rightarrow> fresh | Some s \<Rightarrow> s))
      else map_of m k')"
  by (simp add: upsert_def update_conv')

lemma upsert_distinct:
  "distinct (map fst m) \<Longrightarrow> distinct (map fst (upsert fresh f k m))"
  by (simp add: upsert_def distinct_update)

lemma hitsOf_Nil: "hitsOf k [] = []"
  by (simp add: hitsOf_def)

lemma hitsOf_Cons:
  "hitsOf k (p # ps) = (if fst p = k then snd p # hitsOf k ps else hitsOf k ps)"
  by (simp add: hitsOf_def)

lemma hitsOf_append: "hitsOf k (ps @ qs) = hitsOf k ps @ hitsOf k qs"
  by (simp add: hitsOf_def)

lemma accumulate_map_of:
  "map_of (accumulate fresh add ps m) k =
     (case map_of m k of
        None \<Rightarrow> (if hitsOf k ps = [] then None else Some (fold add (hitsOf k ps) fresh))
      | Some s \<Rightarrow> Some (fold add (hitsOf k ps) s))"
proof (induction ps arbitrary: m)
  case Nil
  then show ?case by (simp add: accumulate_def hitsOf_Nil split: option.splits)
next
  case (Cons p ps)
  have step: "accumulate fresh add (p # ps) m
      = accumulate fresh add ps (upsert fresh (add (snd p)) (fst p) m)"
    by (simp add: accumulate_def)
  show ?case
    unfolding step Cons.IH
    by (simp add: upsert_map_of hitsOf_Cons split: option.splits)
qed

lemma accumulate_distinct:
  "distinct (map fst m) \<Longrightarrow> distinct (map fst (accumulate fresh add ps m))"
proof (induction ps arbitrary: m)
  case Nil
  then show ?case by (simp add: accumulate_def)
next
  case (Cons p ps)
  have step: "accumulate fresh add (p # ps) m
      = accumulate fresh add ps (upsert fresh (add (snd p)) (fst p) m)"
    by (simp add: accumulate_def)
  show ?case
    unfolding step by (rule Cons.IH) (rule upsert_distinct [OF Cons.prems])
qed

lemma accumulate_entries:
  "(k, v) \<in> set (accumulate fresh add ps []) \<longleftrightarrow>
     hitsOf k ps \<noteq> [] \<and> v = fold add (hitsOf k ps) fresh"
proof -
  have d: "distinct (map fst (accumulate fresh add ps []))"
    by (rule accumulate_distinct) simp
  have "(k, v) \<in> set (accumulate fresh add ps []) \<longleftrightarrow>
      map_of (accumulate fresh add ps []) k = Some v"
    using d by simp
  also have "\<dots> \<longleftrightarrow> hitsOf k ps \<noteq> [] \<and> v = fold add (hitsOf k ps) fresh"
    by (auto simp: accumulate_map_of)
  finally show ?thesis .
qed

lemma fold_addTrade_counts:
  "tradesCount (fold addTrade hits s) = tradesCount s + length hits
   \<and> winsCount (fold addTrade hits s) = winsCount s + length (filter isWin hits)
   \<and> lossesCount (fold addTrade hits s) = lossesCount s + length (filter isLoss hits)
   \<and> breakevenCount (fold addTrade hits s) = breakevenCount s + length (filter isBE hits)
   \<and> netPnlCurrency (fold addTrade hits s) = netPnlCurrency s + pnlOf hits"
  by (induction hits arbitrary: s)
     (simp_all add: addTrade_def Let_def isWin_def isLoss_def isBE_def pnlOf_def)

lemma fold_addTagTrade_counts:
  "tradesCount (fold addTagTrade hits s) = tradesCount s + length hits
   \<and> winsCount (fold addTagTrade hits s) = winsCount s + length (filter isWin hits)
   \<and> lossesCount (fold addTagTrade hits s) = lossesCount s + length (filter isLoss hits)
   \<and> breakevenCount (fold addTagTrade hits s) = breakevenCount s + length (filter isBE hits)
   \<and> netPnlCurrency (fold addTagTrade hits s) = netPnlCurrency s + pnlOf hits
   \<and> grossProfit (fold addTagTrade hits s) = grossProfit s + pnlOf (filter isWin hits)
   \<and> grossLossAbs (fold addTagTrade hits s) = grossLossAbs s - pnlOf (filter isLoss hits)"
  by (induction hits arbitrary: s)
     (simp_all add: addTagTrade_def addTrade_def Let_def isWin_def isLoss_def isBE_def pnlOf_def)

lemma accumulateBy_accumulate:
  "accumulateBy key ts = accumulate emptyAcc addTrade (map (\<lambda>t. (key t, t)) ts) []"
  by (simp add: accumulateBy_def accumulate_def fold_map comp_def)

lemma hitsOf_key: "hitsOf k (map (\<lambda>t. (key t, t)) ts) = filter (\<lambda>t. key t = k) ts"
  by (induction ts) (simp_all add: hitsOf_def)

lemma addToTags_accumulate:
  "addToTags t m = accumulate emptyTagAcc addTagTrade (map (\<lambda>tg. (tg, t)) (tagsOf t)) m"
  by (simp add: addToTags_def accumulate_def fold_map comp_def)

lemma accumulate_append:
  "accumulate fresh add (ps @ qs) m = accumulate fresh add qs (accumulate fresh add ps m)"
  by (simp add: accumulate_def)

lemma fold_addToTags:
  "fold addToTags ts m = accumulate emptyTagAcc addTagTrade (tagPairs ts) m"
proof (induction ts arbitrary: m)
  case Nil
  then show ?case by (simp add: tagPairs_def accumulate_def)
next
  case (Cons t ts)
  have split: "tagPairs (t # ts) = map (\<lambda>tg. (tg, t)) (tagsOf t) @ tagPairs ts"
    by (simp add: tagPairs_def)
  have "fold addToTags (t # ts) m = fold addToTags ts (addToTags t m)"
    by simp
  also have "\<dots> = accumulate emptyTagAcc addTagTrade (tagPairs ts) (addToTags t m)"
    by (rule Cons.IH)
  also have "\<dots> = accumulate emptyTagAcc addTagTrade (tagPairs (t # ts)) m"
    by (simp only: split accumulate_append addToTags_accumulate)
  finally show ?case .
qed

lemma tagPairs_tradesWithTags: "tagPairs (tradesWithTags ts) = tagPairs ts"
  by (induction ts) (auto simp: tagPairs_def tradesWithTags_def tagsOf_def split: option.splits)

lemma tagMap_accumulate:
  "tagMap ts = accumulate emptyTagAcc addTagTrade (tagPairs ts) []"
  by (simp add: tagMap_def fold_addToTags tagPairs_tradesWithTags)

lemma hitsOf_tag_one:
  "distinct tgs \<Longrightarrow>
     hitsOf g (map (\<lambda>tg. (tg, t)) tgs) = (if g \<in> set tgs then [t] else [])"
  by (induction tgs) (auto simp: hitsOf_def)

lemma hitsOf_tagPairs:
  "(\<And>t. t \<in> set ts \<Longrightarrow> distinct (tagsOf t)) \<Longrightarrow> hitsOf g (tagPairs ts) = taggedWith g ts"
proof (induction ts)
  case Nil
  then show ?case by (simp add: tagPairs_def hitsOf_def taggedWith_def)
next
  case (Cons t ts)
  have split: "tagPairs (t # ts) = map (\<lambda>tg. (tg, t)) (tagsOf t) @ tagPairs ts"
    by (simp add: tagPairs_def)
  have "distinct (tagsOf t)" using Cons.prems by simp
  then show ?case
    using Cons by (simp add: split hitsOf_append hitsOf_tag_one taggedWith_def)
qed

lemma hitsOf_tagPairs_empty_iff:
  "hitsOf g (tagPairs ts) = [] \<longleftrightarrow> taggedWith g ts = []"
  by (induction ts) (auto simp: tagPairs_def hitsOf_def taggedWith_def filter_empty_conv)

lemma accumulateBy_entries:
  "(k, st) \<in> set (accumulateBy key ts) \<longleftrightarrow>
     filter (\<lambda>t. key t = k) ts \<noteq> [] \<and> st = fold addTrade (filter (\<lambda>t. key t = k) ts) emptyAcc"
  by (simp add: accumulateBy_accumulate accumulate_entries hitsOf_key)

lemma emptyAcc_fields:
  "tradesCount emptyAcc = 0" "winsCount emptyAcc = 0" "lossesCount emptyAcc = 0"
  "breakevenCount emptyAcc = 0" "netPnlCurrency emptyAcc = 0"
  by (simp_all add: emptyAcc_def)

lemma emptyTagAcc_fields:
  "tradesCount emptyTagAcc = 0" "winsCount emptyTagAcc = 0" "lossesCount emptyTagAcc = 0"
  "breakevenCount emptyTagAcc = 0" "netPnlCurrency emptyTagAcc = 0"
  "grossProfit emptyTagAcc = 0" "grossLossAbs emptyTagAcc = 0"
  by (simp_all add: emptyTagAcc_def)

lemma bucket_counts:
  "tradesCount (fold addTrade B emptyAcc) = length B"
  "winsCount (fold addTrade B emptyAcc) = length (filter isWin B)"
  "lossesCount (fold addTrade B emptyAcc) = length (filter isLoss B)"
  "breakevenCount (fold addTrade B emptyAcc) = length (filter isBE B)"
  "netPnlCurrency (fold addTrade B emptyAcc) = pnlOf B"
  using fold_addTrade_counts [of B emptyAcc] by (simp_all add: emptyAcc_fields)

lemma tag_bucket_counts:
  "tradesCount (fold addTagTrade B emptyTagAcc) = length B"
  "winsCount (fold addTagTrade B emptyTagAcc) = length (filter isWin B)"
  "lossesCount (fold addTagTrade B emptyTagAcc) = length (filter isLoss B)"
  "breakevenCount (fold addTagTrade B emptyTagAcc) = length (filter isBE B)"
  "netPnlCurrency (fold addTagTrade B emptyTagAcc) = pnlOf B"
  "grossProfit (fold addTagTrade B emptyTagAcc) = pnlOf (filter isWin B)"
  "grossLossAbs (fold addTagTrade B emptyTagAcc) = - pnlOf (filter isLoss B)"
  using fold_addTagTrade_counts [of B emptyTagAcc] by (simp_all add: emptyTagAcc_fields)

lemma weekdayStats_bucket:
  assumes "s \<in> set (weekdayStats (aggregateTimeAnalytics ts))"
  shows "weekdayBucket (weekday s) ts \<noteq> []
    \<and> s = toWeekdayStat (weekday s, fold addTrade (weekdayBucket (weekday s) ts) emptyAcc)"
proof -
  from assms obtain w st where e: "(w, st) \<in> set (accumulateBy weekdayOf (validTrades ts))"
    and s: "s = toWeekdayStat (w, st)"
    by (auto simp: aggregateTimeAnalytics_def Let_def)
  have w: "weekday s = w" using s by (simp add: toWeekdayStat_def)
  from e show ?thesis
    unfolding accumulateBy_entries using s w by (simp add: weekdayBucket_def)
qed

lemma sessionStats_bucket:
  assumes "s \<in> set (sessionStats (aggregateTimeAnalytics ts))"
  shows "sessionBucket (session s) ts \<noteq> []
    \<and> s = toSessionStat (session s, fold addTrade (sessionBucket (session s) ts) emptyAcc)"
proof -
  from assms obtain w st where e: "(w, st) \<in> set (accumulateBy sessionOf (validTrades ts))"
    and s: "s = toSessionStat (w, st)"
    by (auto simp: aggregateTimeAnalytics_def Let_def)
  have w: "session s = w" using s by (simp add: toSessionStat_def)
  from e show ?thesis
    unfolding accumulateBy_entries using s w by (simp add: sessionBucket_def)
qed

lemma durationStats_bucket:
  assumes "s \<in> set (durationStats (aggregateTimeAnalytics ts))"
  shows "durationBucket (bucketKey s) ts \<noteq> []
    \<and> s = toDurationStat (bucketKey s, fold addTrade (durationBucket (bucketKey s) ts) emptyAcc)"
proof -
  from assms obtain w st where e: "(w, st) \<in> set (accumulateBy bucketKeyOf (validTrades ts))"
    and s: "s = toDurationStat (w, st)"
    by (auto simp: aggregateTimeAnalytics_def Let_def)
  have w: "bucketKey s = w" using s by (simp add: toDurationStat_def)
  from e show ?thesis
    unfolding accumulateBy_entries using s w by (simp add: durationBucket_def)
qed

lemma aggregateTagStats_set:
  "set (aggregateTagStats ts) = toTagStat ` set (tagMap ts)"
  by (auto simp: aggregateTagStats_def tagMap_def)

lemma tagStats_bucket:
  assumes "s \<in> set (aggregateTagStats ts)"
  shows "hitsOf (tag s) (tagPairs ts) \<noteq> []
    \<and> s = toTagStat (tag s, fold addTagTrade (hitsOf (tag s) (tagPairs ts)) emptyTagAcc)"
proof -
  from assms obtain g st where e: "(g, st) \<in> set (tagMap ts)" and s: "s = toTagStat (g, st)"
    by (auto simp: aggregateTagStats_set)
  have g: "tag s = g" using s by (simp add: toTagStat_def)
  from e show ?thesis
    unfolding tagMap_accumulate accumulate_entries using s g by simp
qed

lemma tagMap_keys: "fst ` set (tagMap ts) = {g. hitsOf g (tagPairs ts) \<noteq> []}"
proof (intro set_eqI iffI)
  fix g assume "g \<in> fst ` set (tagMap ts)"
  then obtain st where "(g, st) \<in> set (tagMap ts)" by auto
  then show "g \<in> {g. hitsOf g (tagPairs ts) \<noteq> []}"
    by (simp add: tagMap_accumulate accumulate_entries)
next
  fix g assume "g \<in> {g. hitsOf g (tagPairs ts) \<noteq> []}"
  then have "(g, fold addTagTrade (hitsOf g (tagPairs ts)) emptyTagAcc) \<in> set (tagMap ts)"
    by (simp add: tagMap_accumulate accumulate_entries)
  then show "g \<in> fst ` set (tagMap ts)" by force
qed

lemma tag_toTagStat: "tag (toTagStat e) = fst e"
  by (simp add: toTagStat_def case_prod_beta)

lemma tagStats_tags:
  "tag ` set (aggregateTagStats ts) = {g. hitsOf g (tagPairs ts) \<noteq> []}"
proof -
  have "tag ` set (aggregateTagStats ts) = fst ` set (tagMap ts)"
    by (simp add: aggregateTagStats_set image_image tag_toTagStat)
  then show ?thesis by (simp only: tagMap_keys)
qed

lemma set_hitsOf_one:
  "set (hitsOf g (map (\<lambda>tg. (tg, t)) tgs)) = (if g \<in> set tgs then {t} else {})"
  by (induction tgs) (auto simp: hitsOf_Nil hitsOf_Cons split: if_splits)

lemma set_hitsOf_tagPairs: "set (hitsOf g (tagPairs ts)) = set (taggedWith g ts)"
proof (induction ts)
  case Nil
  then show ?case by (simp add: tagPairs_def hitsOf_def taggedWith_def)
next
  case (Cons t ts)
  have split: "tagPairs (t # ts) = map (\<lambda>tg. (tg, t)) (tagsOf t) @ tagPairs ts"
    by (simp add: tagPairs_def)
  have tw: "set (taggedWith g (t # ts))
      = (if g \<in> set (tagsOf t) then {t} else {}) \<union> set (taggedWith g ts)"
    by (auto simp: taggedWith_def)
  show ?case
    by (simp only: split hitsOf_append set_append set_hitsOf_one Cons.IH tw)
qed

lemma tagStats_distinct: "distinct (map tag (aggregateTagStats ts))"
proof -
  let ?xs = "map toTagStat (tagMap ts)"
  let ?key = "\<lambda>s::TagStat. (- netPnlCurrency s, - int (tradesCount s))"
  have m: "map tag ?xs = map fst (tagMap ts)"
    by (simp add: tag_toTagStat)
  have d: "distinct (map fst (tagMap ts))"
    unfolding tagMap_accumulate by (rule accumulate_distinct) simp
  then have dm: "distinct (map tag ?xs)"
    by (simp only: m)
  then have "distinct ?xs" and "inj_on tag (set ?xs)"
    by (simp_all only: distinct_map)
  then have "distinct (sort_key ?key ?xs)" and "inj_on tag (set (sort_key ?key ?xs))"
    by simp_all
  then have "distinct (map tag (sort_key ?key ?xs))"
    by (simp only: distinct_map)
  then show ?thesis
    by (simp add: aggregateTagStats_def)
qed

lemma sign_partition:
  "length (filter isWin B) + length (filter isLoss B) + length (filter isBE B) = length B"
  by (induction B) (auto simp: isWin_def isLoss_def isBE_def)

lemma pnl_partition:
  "length (filter hasPnl B) + length (filter (\<lambda>t. \<not> hasPnl t) B) = length B"
  by (rule sum_length_filter_compl)

lemma pnlOf_losses_nonpos: "pnlOf (filter isLoss B) \<le> 0"
  by (induction B) (auto simp: pnlOf_def isLoss_def)

lemma pnlOf_losses_zero_iff: "pnlOf (filter isLoss B) = 0 \<longleftrightarrow> filter isLoss B = []"
proof
  assume z: "pnlOf (filter isLoss B) = 0"
  have "map (\<lambda>t. orZero (pnlCurrency t)) (filter isLoss B) = []"
  proof (rule sum_list_negatives_zero)
    show "sum_list (map (\<lambda>t. orZero (pnlCurrency t)) (filter isLoss B)) = 0"
      using z by (simp add: pnlOf_def)
  qed (auto simp: isLoss_def)
  then show "filter isLoss B = []" by simp
next
  assume "filter isLoss B = []"
  then show "pnlOf (filter isLoss B) = 0" by (simp add: pnlOf_def)
qed

lemma grossLossOf_zero_iff: "grossLossOf B = 0 \<longleftrightarrow> filter isLoss B = []"
  by (simp add: grossLossOf_def pnlOf_losses_zero_iff)

lemma isNegative_isLoss: "isNegative (pnlCurrency t) = isLoss t"
  by (simp add: isNegative_def isLoss_def orZero_def split: option.splits)

lemma kpisGrossLoss_grossLossOf: "kpisGrossLoss ts = grossLossOf ts"
  by (simp add: kpisGrossLoss_def grossLossOf_def sumBy_sum_list pnlOf_def isNegative_isLoss)

lemma filter_isLoss_same_set:
  "set B = set C \<Longrightarrow> filter isLoss B = [] \<longleftrightarrow> filter isLoss C = []"
  by (simp add: filter_empty_conv)

lemma tag_profitFactor_None:
  assumes "s \<in> set (aggregateTagStats ts)"
  shows "profitFactor s = None \<longleftrightarrow> grossLossOf (taggedWith (tag s) ts) = 0"
proof -
  let ?B = "hitsOf (tag s) (tagPairs ts)"
  from tagStats_bucket [OF assms]
  have s: "s = toTagStat (tag s, fold addTagTrade ?B emptyTagAcc)" by simp
  have "profitFactor s = None \<longleftrightarrow> \<not> 0 < grossLossAbs (fold addTagTrade ?B emptyTagAcc)"
    by (subst s) (simp add: toTagStat_def)
  also have "\<dots> \<longleftrightarrow> pnlOf (filter isLoss ?B) = 0"
    using pnlOf_losses_nonpos [of ?B] by (auto simp: tag_bucket_counts)
  also have "\<dots> \<longleftrightarrow> filter isLoss ?B = []"
    by (rule pnlOf_losses_zero_iff)
  also have "\<dots> \<longleftrightarrow> filter isLoss (taggedWith (tag s) ts) = []"
    by (rule filter_isLoss_same_set) (rule set_hitsOf_tagPairs)
  also have "\<dots> \<longleftrightarrow> grossLossOf (taggedWith (tag s) ts) = 0"
    by (simp add: grossLossOf_zero_iff)
  finally show ?thesis .
qed

lemma tagStats_tags_union:
  "tag ` set (aggregateTagStats ts) = (\<Union>t \<in> set ts. set (tagsOf t))"
proof -
  have "hitsOf g (tagPairs ts) \<noteq> [] \<longleftrightarrow> (\<exists>t \<in> set ts. g \<in> set (tagsOf t))" for g
  proof -
    have "hitsOf g (tagPairs ts) \<noteq> [] \<longleftrightarrow> set (hitsOf g (tagPairs ts)) \<noteq> {}"
      by simp
    also have "\<dots> \<longleftrightarrow> set (taggedWith g ts) \<noteq> {}"
      by (simp only: set_hitsOf_tagPairs)
    also have "\<dots> \<longleftrightarrow> (\<exists>t \<in> set ts. g \<in> set (tagsOf t))"
      by (auto simp: taggedWith_def)
    finally show ?thesis .
  qed
  then show ?thesis
    by (auto simp: tagStats_tags)
qed

lemma tradesWithTags_idem: "tradesWithTags (tradesWithTags ts) = tradesWithTags ts"
  by (simp add: tradesWithTags_def)

lemma aggregateTagStats_tradesWithTags:
  "aggregateTagStats (tradesWithTags ts) = aggregateTagStats ts"
  by (simp add: aggregateTagStats_def tagMap_def tradesWithTags_idem)

lemma weekdayStat_fields:
  assumes "s \<in> set (weekdayStats (aggregateTimeAnalytics ts))"
  shows "tradesCount s = length (weekdayBucket (weekday s) ts)"
    and "winsCount s = length (filter isWin (weekdayBucket (weekday s) ts))"
    and "lossesCount s = length (filter isLoss (weekdayBucket (weekday s) ts))"
    and "breakevenCount s = length (filter isBE (weekdayBucket (weekday s) ts))"
    and "netPnlCurrency s = pnlOf (weekdayBucket (weekday s) ts)"
proof -
  from weekdayStats_bucket [OF assms]
  have eq: "s = toWeekdayStat (weekday s, fold addTrade (weekdayBucket (weekday s) ts) emptyAcc)"
    by simp
  show "tradesCount s = length (weekdayBucket (weekday s) ts)"
    by (subst eq) (simp add: toWeekdayStat_def bucket_counts)
  show "winsCount s = length (filter isWin (weekdayBucket (weekday s) ts))"
    by (subst eq) (simp add: toWeekdayStat_def bucket_counts)
  show "lossesCount s = length (filter isLoss (weekdayBucket (weekday s) ts))"
    by (subst eq) (simp add: toWeekdayStat_def bucket_counts)
  show "breakevenCount s = length (filter isBE (weekdayBucket (weekday s) ts))"
    by (subst eq) (simp add: toWeekdayStat_def bucket_counts)
  show "netPnlCurrency s = pnlOf (weekdayBucket (weekday s) ts)"
    by (subst eq) (simp add: toWeekdayStat_def bucket_counts)
qed

lemma sessionStat_fields:
  assumes "s \<in> set (sessionStats (aggregateTimeAnalytics ts))"
  shows "tradesCount s = length (sessionBucket (session s) ts)"
    and "winsCount s = length (filter isWin (sessionBucket (session s) ts))"
    and "lossesCount s = length (filter isLoss (sessionBucket (session s) ts))"
    and "breakevenCount s = length (filter isBE (sessionBucket (session s) ts))"
    and "netPnlCurrency s = pnlOf (sessionBucket (session s) ts)"
proof -
  from sessionStats_bucket [OF assms]
  have eq: "s = toSessionStat (session s, fold addTrade (sessionBucket (session s) ts) emptyAcc)"
    by simp
  show "tradesCount s = length (sessionBucket (session s) ts)"
    by (subst eq) (simp add: toSessionStat_def bucket_counts)
  show "winsCount s = length (filter isWin (sessionBucket (session s) ts))"
    by (subst eq) (simp add: toSessionStat_def bucket_counts)
  show "lossesCount s = length (filter isLoss (sessionBucket (session s) ts))"
    by (subst eq) (simp add: toSessionStat_def bucket_counts)
  show "breakevenCount s = length (filter isBE (sessionBucket (session s) ts))"
    by (subst eq) (simp add: toSessionStat_def bucket_counts)
  show "netPnlCurrency s = pnlOf (sessionBucket (session s) ts)"
    by (subst eq) (simp add: toSessionStat_def bucket_counts)
qed

lemma durationStat_fields:
  assumes "s \<in> set (durationStats (aggregateTimeAnalytics ts))"
  shows "tradesCount s = length (durationBucket (bucketKey s) ts)"
    and "winsCount s = length (filter isWin (durationBucket (bucketKey s) ts))"
    and "lossesCount s = length (filter isLoss (durationBucket (bucketKey s) ts))"
    and "breakevenCount s = length (filter isBE (durationBucket (bucketKey s) ts))"
    and "netPnlCurrency s = pnlOf (durationBucket (bucketKey s) ts)"
proof -
  from durationStats_bucket [OF assms]
  have eq: "s = toDurationStat
      (bucketKey s, fold addTrade (durationBucket (bucketKey s) ts) emptyAcc)"
    by simp
  show "tradesCount s = length (durationBucket (bucketKey s) ts)"
    by (subst eq) (simp add: toDurationStat_def bucket_counts)
  show "winsCount s = length (filter isWin (durationBucket (bucketKey s) ts))"
    by (subst eq) (simp add: toDurationStat_def bucket_counts)
  show "lossesCount s = length (filter isLoss (durationBucket (bucketKey s) ts))"
    by (subst eq) (simp add: toDurationStat_def bucket_counts)
  show "breakevenCount s = length (filter isBE (durationBucket (bucketKey s) ts))"
    by (subst eq) (simp add: toDurationStat_def bucket_counts)
  show "netPnlCurrency s = pnlOf (durationBucket (bucketKey s) ts)"
    by (subst eq) (simp add: toDurationStat_def bucket_counts)
qed

lemma tagStat_fields:
  assumes "s \<in> set (aggregateTagStats ts)"
  shows "tradesCount s = length (hitsOf (tag s) (tagPairs ts))"
    and "winsCount s = length (filter isWin (hitsOf (tag s) (tagPairs ts)))"
    and "lossesCount s = length (filter isLoss (hitsOf (tag s) (tagPairs ts)))"
    and "breakevenCount s = length (filter isBE (hitsOf (tag s) (tagPairs ts)))"
proof -
  from tagStats_bucket [OF assms]
  have eq: "s = toTagStat (tag s, fold addTagTrade (hitsOf (tag s) (tagPairs ts)) emptyTagAcc)"
    by simp
  show "tradesCount s = length (hitsOf (tag s) (tagPairs ts))"
    by (subst eq) (simp add: toTagStat_def tag_bucket_counts)
  show "winsCount s = length (filter isWin (hitsOf (tag s) (tagPairs ts)))"
    by (subst eq) (simp add: toTagStat_def tag_bucket_counts)
  show "lossesCount s = length (filter isLoss (hitsOf (tag s) (tagPairs ts)))"
    by (subst eq) (simp add: toTagStat_def tag_bucket_counts)
  show "breakevenCount s = length (filter isBE (hitsOf (tag s) (tagPairs ts)))"
    by (subst eq) (simp add: toTagStat_def tag_bucket_counts)
qed

subsection \<open>Tag analytics: full contribution to every tag\<close>

text \<open>
  C9: when the tags of every trade form a set (no tag twice on one trade), the buckets
  of \<^verbatim>\<open>aggregateTagStats\<close> are exactly the tags that occur, one bucket per tag, and
  the bucket of a tag holds the counts and the whole P&L of every trade that carries
  the tag, whatever other tags the trade has; a trade with no tags (absent or empty)
  carries no tag, is in no bucket, and can be removed without changing the result.
\<close>

theorem aggregateTagStats_full_contribution:
  assumes "\<forall>t \<in> set trades. distinct (tagsOf t)"
  shows "tag ` set (aggregateTagStats trades) = (\<Union>t \<in> set trades. set (tagsOf t))
     \<and> distinct (map tag (aggregateTagStats trades))
     \<and> (\<forall>s \<in> set (aggregateTagStats trades).
          tradesCount s = length (taggedWith (tag s) trades)
          \<and> winsCount s = length (filter isWin (taggedWith (tag s) trades))
          \<and> lossesCount s = length (filter isLoss (taggedWith (tag s) trades))
          \<and> breakevenCount s = length (filter isBE (taggedWith (tag s) trades))
          \<and> netPnlCurrency s = pnlOf (taggedWith (tag s) trades))
     \<and> aggregateTagStats (tradesWithTags trades) = aggregateTagStats trades"
proof (intro conjI ballI)
  show "tag ` set (aggregateTagStats trades) = (\<Union>t \<in> set trades. set (tagsOf t))"
    by (rule tagStats_tags_union)
  show "distinct (map tag (aggregateTagStats trades))"
    by (rule tagStats_distinct)
  show "aggregateTagStats (tradesWithTags trades) = aggregateTagStats trades"
    by (rule aggregateTagStats_tradesWithTags)
next
  fix s assume s: "s \<in> set (aggregateTagStats trades)"
  have hits: "hitsOf (tag s) (tagPairs trades) = taggedWith (tag s) trades"
    using assms by (intro hitsOf_tagPairs) simp
  from tagStats_bucket [OF s]
  have eq: "s = toTagStat (tag s, fold addTagTrade (taggedWith (tag s) trades) emptyTagAcc)"
    by (simp add: hits)
  show "tradesCount s = length (taggedWith (tag s) trades)"
    by (subst eq) (simp add: toTagStat_def tag_bucket_counts)
  show "winsCount s = length (filter isWin (taggedWith (tag s) trades))"
    by (subst eq) (simp add: toTagStat_def tag_bucket_counts)
  show "lossesCount s = length (filter isLoss (taggedWith (tag s) trades))"
    by (subst eq) (simp add: toTagStat_def tag_bucket_counts)
  show "breakevenCount s = length (filter isBE (taggedWith (tag s) trades))"
    by (subst eq) (simp add: toTagStat_def tag_bucket_counts)
  show "netPnlCurrency s = pnlOf (taggedWith (tag s) trades)"
    by (subst eq) (simp add: toTagStat_def tag_bucket_counts)
qed

theorem aggregateTagStats_full_contribution_witness:
  "tag ` set (aggregateTagStats
      [tradeAt jan1 (Some 100) Win (Some [''a'', ''b'']),
       tradeAt jan5 (Some (- 30)) Loss (Some [''a'']),
       tradeAt jan6 (Some 7) Win None,
       tradeAt jan6 (Some 9) Win (Some [])]) = {''a'', ''b''}
   \<and> map (\<lambda>s. (tag s, tradesCount s, netPnlCurrency s))
      (aggregateTagStats
      [tradeAt jan1 (Some 100) Win (Some [''a'', ''b'']),
       tradeAt jan5 (Some (- 30)) Loss (Some [''a'']),
       tradeAt jan6 (Some 7) Win None,
       tradeAt jan6 (Some 9) Win (Some [])])
     = [(''b'', 1, 100), (''a'', 2, 70)]"
proof -
  have sets: "\<forall>t \<in> set
      [tradeAt jan1 (Some 100) Win (Some [''a'', ''b'']),
       tradeAt jan5 (Some (- 30)) Loss (Some [''a'']),
       tradeAt jan6 (Some 7) Win None,
       tradeAt jan6 (Some 9) Win (Some [])]. distinct (tagsOf t)"
    by (simp add: tagsOf_def tradeAt_def)
  have run: "map (\<lambda>s. (tag s, tradesCount s, netPnlCurrency s))
      (aggregateTagStats
      [tradeAt jan1 (Some 100) Win (Some [''a'', ''b'']),
       tradeAt jan5 (Some (- 30)) Loss (Some [''a'']),
       tradeAt jan6 (Some 7) Win None,
       tradeAt jan6 (Some 9) Win (Some [])])
     = [(''b'', 1, 100), (''a'', 2, 70)]"
    by (simp add: aggregateTagStats_def tradesWithTags_def tagMap_def addToTags_def tagsOf_def
      tradeAt_def upsert_def emptyTagAcc_def addTagTrade_def addTrade_def orZero_def Let_def
      toTagStat_def bucketWinRate_def bucketAvgR_def)
  from aggregateTagStats_full_contribution [OF sets]
  have "tag ` set (aggregateTagStats
      [tradeAt jan1 (Some 100) Win (Some [''a'', ''b'']),
       tradeAt jan5 (Some (- 30)) Loss (Some [''a'']),
       tradeAt jan6 (Some 7) Win None,
       tradeAt jan6 (Some 9) Win (Some [])]) = (\<Union>t \<in> set
      [tradeAt jan1 (Some 100) Win (Some [''a'', ''b'']),
       tradeAt jan5 (Some (- 30)) Loss (Some [''a'']),
       tradeAt jan6 (Some 7) Win None,
       tradeAt jan6 (Some 9) Win (Some [])]. set (tagsOf t))"
    by (rule conjunct1)
  then show ?thesis
    using run by (auto simp: tagsOf_def tradeAt_def)
qed

subsection \<open>Profit factor without gross loss\<close>

text \<open>
  C7: for every trade list whose gross loss (the sum of the negative P&L, in absolute
  value) is exactly zero, the profit factor of \<^verbatim>\<open>calculateTradesKpis\<close> is null and
  so is the profit factor of every bucket of \<^verbatim>\<open>aggregateTagStats\<close>, whatever the
  gross profit; the gross loss the KPI function computes is that gross loss, and a tag
  bucket has a null profit factor exactly when the gross loss of the trades that carry
  the tag is zero.
\<close>

theorem profitFactor_null_without_gross_loss:
  "(grossLossOf trades = 0 \<longrightarrow>
      kpiProfitFactor (calculateTradesKpis trades) = None
      \<and> (\<forall>s \<in> set (aggregateTagStats trades). profitFactor s = None))
   \<and> kpisGrossLoss trades = grossLossOf trades
   \<and> (\<forall>s \<in> set (aggregateTagStats trades).
        profitFactor s = None \<longleftrightarrow> grossLossOf (taggedWith (tag s) trades) = 0)"
proof (intro conjI impI ballI)
  assume z: "grossLossOf trades = 0"
  show "kpiProfitFactor (calculateTradesKpis trades) = None"
    using z by (simp add: calculateTradesKpis_def Let_def kpisGrossLoss_grossLossOf)
  fix s assume s: "s \<in> set (aggregateTagStats trades)"
  from z have "filter isLoss trades = []" by (simp add: grossLossOf_zero_iff)
  then have "filter isLoss (taggedWith (tag s) trades) = []"
    by (auto simp: filter_empty_conv taggedWith_def)
  then show "profitFactor s = None"
    by (simp add: tag_profitFactor_None [OF s] grossLossOf_zero_iff)
next
  show "kpisGrossLoss trades = grossLossOf trades" by (rule kpisGrossLoss_grossLossOf)
next
  fix s assume "s \<in> set (aggregateTagStats trades)"
  then show "profitFactor s = None \<longleftrightarrow> grossLossOf (taggedWith (tag s) trades) = 0"
    by (rule tag_profitFactor_None)
qed

theorem profitFactor_null_without_gross_loss_witness:
  "kpiProfitFactor (calculateTradesKpis
      [tradeAt jan1 (Some 100) Win (Some [''a'']), tradeAt jan5 (Some 0) Be (Some [''a''])])
     = None
   \<and> map profitFactor (aggregateTagStats
      [tradeAt jan1 (Some 100) Win (Some [''a'']), tradeAt jan5 (Some 0) Be (Some [''a''])])
     = [None]"
proof -
  have zero: "grossLossOf
      [tradeAt jan1 (Some 100) Win (Some [''a'']), tradeAt jan5 (Some 0) Be (Some [''a''])] = 0"
    by (simp add: grossLossOf_def isLoss_def pnlOf_def tradeAt_def orZero_def)
  have run: "map tag (aggregateTagStats
      [tradeAt jan1 (Some 100) Win (Some [''a'']), tradeAt jan5 (Some 0) Be (Some [''a''])])
     = [''a'']"
    by (simp add: aggregateTagStats_def tradesWithTags_def tagMap_def addToTags_def tagsOf_def
      tradeAt_def upsert_def emptyTagAcc_def addTagTrade_def addTrade_def orZero_def Let_def
      toTagStat_def bucketWinRate_def bucketAvgR_def)
  from profitFactor_null_without_gross_loss
    [of "[tradeAt jan1 (Some 100) Win (Some [''a'']), tradeAt jan5 (Some 0) Be (Some [''a''])]"]
    zero
  have kpi: "kpiProfitFactor (calculateTradesKpis
      [tradeAt jan1 (Some 100) Win (Some [''a'']), tradeAt jan5 (Some 0) Be (Some [''a''])])
     = None"
    and tags: "\<forall>s \<in> set (aggregateTagStats
      [tradeAt jan1 (Some 100) Win (Some [''a'']), tradeAt jan5 (Some 0) Be (Some [''a''])]).
      profitFactor s = None"
    by blast+
  from run obtain s where one: "aggregateTagStats
      [tradeAt jan1 (Some 100) Win (Some [''a'']), tradeAt jan5 (Some 0) Be (Some [''a''])] = [s]"
    by (auto simp: map_eq_Cons_conv)
  with tags have "profitFactor s = None" by simp
  with kpi one show ?thesis by simp
qed

subsection \<open>The three counts of a bucket\<close>

text \<open>
  C5, as stated, does not hold: a trade without a P&L is counted, as a breakeven. For
  the single trade below, which has no \<^verbatim>\<open>pnlCurrency\<close>, the weekday bucket has
  0 wins, 0 losses and 1 breakeven, and the number of trades with a defined P&L is 0.
\<close>

theorem missing_pnl_counted_as_breakeven:
  "map (\<lambda>s. (winsCount s, lossesCount s, breakevenCount s))
      (weekdayStats (aggregateTimeAnalytics [tradeAt jan5 None Be None])) = [(0, 0, 1)]
   \<and> length (filter hasPnl [tradeAt jan5 None Be None]) = 0"
  by (simp add: hasPnl_def aggregateTimeAnalytics_def validTrades_def getEffectiveOpenTime_def
      getEffectiveCloseTime_def tradeAt_def accumulateBy_def upsert_def weekdayOf_def
      sessionOf_def bucketKeyOf_def emptyAcc_def addTrade_def orZero_def Let_def
      toWeekdayStat_def jan5_def jan1_def)

text \<open>
  C5, amended: in every bucket of the weekday, session, duration and tag aggregations,
  winsCount + lossesCount + breakevenCount = tradesCount, the number of trades the
  aggregation sends to the bucket (for a tag: once per occurrence of the tag on a
  trade); that is the number of those trades with a defined P&L plus the number of
  those without one, which the \<^verbatim>\<open>?? 0\<close> of the loops counts as breakeven.
\<close>

theorem bucket_counts_cover_bucket:
  "(\<forall>s \<in> set (weekdayStats (aggregateTimeAnalytics trades)).
      winsCount s + lossesCount s + breakevenCount s = tradesCount s
      \<and> tradesCount s = length (filter hasPnl (weekdayBucket (weekday s) trades))
          + length (filter (\<lambda>t. \<not> hasPnl t) (weekdayBucket (weekday s) trades)))
   \<and> (\<forall>s \<in> set (sessionStats (aggregateTimeAnalytics trades)).
      winsCount s + lossesCount s + breakevenCount s = tradesCount s
      \<and> tradesCount s = length (filter hasPnl (sessionBucket (session s) trades))
          + length (filter (\<lambda>t. \<not> hasPnl t) (sessionBucket (session s) trades)))
   \<and> (\<forall>s \<in> set (durationStats (aggregateTimeAnalytics trades)).
      winsCount s + lossesCount s + breakevenCount s = tradesCount s
      \<and> tradesCount s = length (filter hasPnl (durationBucket (bucketKey s) trades))
          + length (filter (\<lambda>t. \<not> hasPnl t) (durationBucket (bucketKey s) trades)))
   \<and> (\<forall>s \<in> set (aggregateTagStats trades).
      winsCount s + lossesCount s + breakevenCount s = tradesCount s
      \<and> tradesCount s = length (filter hasPnl (hitsOf (tag s) (tagPairs trades)))
          + length (filter (\<lambda>t. \<not> hasPnl t) (hitsOf (tag s) (tagPairs trades))))"
proof (intro conjI ballI)
  fix s assume s: "s \<in> set (weekdayStats (aggregateTimeAnalytics trades))"
  show "winsCount s + lossesCount s + breakevenCount s = tradesCount s"
    by (simp only: weekdayStat_fields [OF s] sign_partition)
  show "tradesCount s = length (filter hasPnl (weekdayBucket (weekday s) trades))
      + length (filter (\<lambda>t. \<not> hasPnl t) (weekdayBucket (weekday s) trades))"
    by (simp only: weekdayStat_fields [OF s] pnl_partition)
next
  fix s assume s: "s \<in> set (sessionStats (aggregateTimeAnalytics trades))"
  show "winsCount s + lossesCount s + breakevenCount s = tradesCount s"
    by (simp only: sessionStat_fields [OF s] sign_partition)
  show "tradesCount s = length (filter hasPnl (sessionBucket (session s) trades))
      + length (filter (\<lambda>t. \<not> hasPnl t) (sessionBucket (session s) trades))"
    by (simp only: sessionStat_fields [OF s] pnl_partition)
next
  fix s assume s: "s \<in> set (durationStats (aggregateTimeAnalytics trades))"
  show "winsCount s + lossesCount s + breakevenCount s = tradesCount s"
    by (simp only: durationStat_fields [OF s] sign_partition)
  show "tradesCount s = length (filter hasPnl (durationBucket (bucketKey s) trades))
      + length (filter (\<lambda>t. \<not> hasPnl t) (durationBucket (bucketKey s) trades))"
    by (simp only: durationStat_fields [OF s] pnl_partition)
next
  fix s assume s: "s \<in> set (aggregateTagStats trades)"
  show "winsCount s + lossesCount s + breakevenCount s = tradesCount s"
    by (simp only: tagStat_fields [OF s] sign_partition)
  show "tradesCount s = length (filter hasPnl (hitsOf (tag s) (tagPairs trades)))
      + length (filter (\<lambda>t. \<not> hasPnl t) (hitsOf (tag s) (tagPairs trades)))"
    by (simp only: tagStat_fields [OF s] pnl_partition)
qed

theorem bucket_counts_cover_bucket_witness:
  "map (\<lambda>s. (weekday s, tradesCount s, winsCount s, lossesCount s, breakevenCount s))
      (weekdayStats (aggregateTimeAnalytics
        [tradeAt jan5 None Be None, tradeAt jan1 (Some 5) Win None,
         tradeAt jan5 (Some (- 1)) Loss None]))
     = [(1, 1, 1, 0, 0), (5, 2, 0, 1, 1)]
   \<and> list_all (\<lambda>s. winsCount s + lossesCount s + breakevenCount s = tradesCount s)
      (weekdayStats (aggregateTimeAnalytics
        [tradeAt jan5 None Be None, tradeAt jan1 (Some 5) Win None,
         tradeAt jan5 (Some (- 1)) Loss None]))"
proof -
  have run: "map (\<lambda>s. (weekday s, tradesCount s, winsCount s, lossesCount s, breakevenCount s))
      (weekdayStats (aggregateTimeAnalytics
        [tradeAt jan5 None Be None, tradeAt jan1 (Some 5) Win None,
         tradeAt jan5 (Some (- 1)) Loss None]))
     = [(1, 1, 1, 0, 0), (5, 2, 0, 1, 1)]"
    by (simp add: aggregateTimeAnalytics_def validTrades_def getEffectiveOpenTime_def
      getEffectiveCloseTime_def tradeAt_def accumulateBy_def upsert_def weekdayOf_def
      sessionOf_def bucketKeyOf_def emptyAcc_def addTrade_def orZero_def Let_def
      toWeekdayStat_def jan5_def jan1_def)
  from bucket_counts_cover_bucket
    [of "[tradeAt jan5 None Be None, tradeAt jan1 (Some 5) Win None,
          tradeAt jan5 (Some (- 1)) Loss None]"]
  have "\<forall>s \<in> set (weekdayStats (aggregateTimeAnalytics
        [tradeAt jan5 None Be None, tradeAt jan1 (Some 5) Win None,
         tradeAt jan5 (Some (- 1)) Loss None])).
      winsCount s + lossesCount s + breakevenCount s = tradesCount s"
    by blast
  then show ?thesis
    using run by (simp add: list_all_iff)
qed

subsection \<open>Win, loss and breakeven by component\<close>

lemma count_by_status:
  "length (filter (\<lambda>t. status t = r) ts) = length (filter (\<lambda>x. x = r) (map status ts))"
  by (simp add: filter_map comp_def)

lemma kpiWinRate_by_status:
  assumes "map status ts = map status ts'"
  shows "kpiWinRate (calculateTradesKpis ts) = kpiWinRate (calculateTradesKpis ts')"
proof -
  have len: "length ts = length ts'"
    using assms by (rule map_eq_imp_length_eq)
  have "kpisWins ts = kpisWins ts'" "kpisLosses ts = kpisLosses ts'"
    "kpisBreakevens ts = kpisBreakevens ts'"
    by (simp_all only: kpisWins_def kpisLosses_def kpisBreakevens_def count_by_status assms)
  then show ?thesis
    using len by (simp add: calculateTradesKpis_def Let_def)
qed

text \<open>
  C1, as stated, does not hold: \<^verbatim>\<open>calculateTradesKpis\<close> counts wins, losses and
  breakevens from the stored \<^verbatim>\<open>status\<close>. A trade with a P&L of +100 whose stored
  status is \<open>loss\<close> is a win by the sign of its P&L, and the function counts no win,
  one loss, and reports a win rate of 0.
\<close>

theorem calculateTradesKpis_reads_status:
  "isWin (tradeAt jan5 (Some 100) Loss None)
   \<and> kpisWins [tradeAt jan5 (Some 100) Loss None] = 0
   \<and> kpisLosses [tradeAt jan5 (Some 100) Loss None] = 1
   \<and> kpiWinRate (calculateTradesKpis [tradeAt jan5 (Some 100) Loss None]) = 0"
  by (simp add: isWin_def orZero_def tradeAt_def kpisWins_def kpisLosses_def kpisBreakevens_def
      calculateTradesKpis_def Let_def)

text \<open>
  C1, amended: the time analytics (weekday, session and duration buckets), the tag
  analytics and the dashboard aggregation classify every trade they process by the
  sign of its currency P&L (above 0 a win, below 0 a loss, equal to 0, or missing and
  read as 0, a breakeven; the dashboard counts wins and losses only);
  \<^verbatim>\<open>calculateTradesKpis\<close> takes the classification from the stored status: two
  trade lists with the same statuses have the same win rate, whatever their P&L.
\<close>

theorem classification_by_component:
  "(\<forall>s \<in> set (weekdayStats (aggregateTimeAnalytics trades)).
      winsCount s = length (filter isWin (weekdayBucket (weekday s) trades))
      \<and> lossesCount s = length (filter isLoss (weekdayBucket (weekday s) trades))
      \<and> breakevenCount s = length (filter isBE (weekdayBucket (weekday s) trades)))
   \<and> (\<forall>s \<in> set (sessionStats (aggregateTimeAnalytics trades)).
      winsCount s = length (filter isWin (sessionBucket (session s) trades))
      \<and> lossesCount s = length (filter isLoss (sessionBucket (session s) trades))
      \<and> breakevenCount s = length (filter isBE (sessionBucket (session s) trades)))
   \<and> (\<forall>s \<in> set (durationStats (aggregateTimeAnalytics trades)).
      winsCount s = length (filter isWin (durationBucket (bucketKey s) trades))
      \<and> lossesCount s = length (filter isLoss (durationBucket (bucketKey s) trades))
      \<and> breakevenCount s = length (filter isBE (durationBucket (bucketKey s) trades)))
   \<and> (\<forall>s \<in> set (aggregateTagStats trades).
      winsCount s = length (filter isWin (hitsOf (tag s) (tagPairs trades)))
      \<and> lossesCount s = length (filter isLoss (hitsOf (tag s) (tagPairs trades)))
      \<and> breakevenCount s = length (filter isBE (hitsOf (tag s) (tagPairs trades))))
   \<and> dashWinCount (kpis (aggregateTrades trades)) = length (filter isWin trades)
   \<and> dashLossCount (kpis (aggregateTrades trades))
       = length (filter isLoss trades)
   \<and> (\<forall>trades'. map status trades = map status trades' \<longrightarrow>
        kpiWinRate (calculateTradesKpis trades) = kpiWinRate (calculateTradesKpis trades'))"
proof (intro conjI ballI allI impI)
  fix s assume s: "s \<in> set (weekdayStats (aggregateTimeAnalytics trades))"
  show "winsCount s = length (filter isWin (weekdayBucket (weekday s) trades))"
    and "lossesCount s = length (filter isLoss (weekdayBucket (weekday s) trades))"
    and "breakevenCount s = length (filter isBE (weekdayBucket (weekday s) trades))"
    by (rule weekdayStat_fields [OF s])+
next
  fix s assume s: "s \<in> set (sessionStats (aggregateTimeAnalytics trades))"
  show "winsCount s = length (filter isWin (sessionBucket (session s) trades))"
    and "lossesCount s = length (filter isLoss (sessionBucket (session s) trades))"
    and "breakevenCount s = length (filter isBE (sessionBucket (session s) trades))"
    by (rule sessionStat_fields [OF s])+
next
  fix s assume s: "s \<in> set (durationStats (aggregateTimeAnalytics trades))"
  show "winsCount s = length (filter isWin (durationBucket (bucketKey s) trades))"
    and "lossesCount s = length (filter isLoss (durationBucket (bucketKey s) trades))"
    and "breakevenCount s = length (filter isBE (durationBucket (bucketKey s) trades))"
    by (rule durationStat_fields [OF s])+
next
  fix s assume s: "s \<in> set (aggregateTagStats trades)"
  show "winsCount s = length (filter isWin (hitsOf (tag s) (tagPairs trades)))"
    and "lossesCount s = length (filter isLoss (hitsOf (tag s) (tagPairs trades)))"
    and "breakevenCount s = length (filter isBE (hitsOf (tag s) (tagPairs trades)))"
    by (rule tagStat_fields [OF s])+
next
  show "dashWinCount (kpis (aggregateTrades trades))
      = length (filter isWin trades)"
    by (simp add: aggregateTrades_def Let_def isWin_def [abs_def])
  show "dashLossCount (kpis (aggregateTrades trades))
      = length (filter isLoss trades)"
    by (simp add: aggregateTrades_def Let_def isLoss_def [abs_def])
next
  fix trades' :: "Trade list"
  assume "map status trades = map status trades'"
  then show "kpiWinRate (calculateTradesKpis trades) = kpiWinRate (calculateTradesKpis trades')"
    by (rule kpiWinRate_by_status)
qed

theorem classification_by_component_witness:
  "map (\<lambda>s. (weekday s, winsCount s, lossesCount s, breakevenCount s))
      (weekdayStats (aggregateTimeAnalytics
        [tradeAt jan5 (Some 100) Loss None, tradeAt jan5 (Some 0) Win None]))
     = [(5, 1, 0, 1)]
   \<and> kpiWinRate (calculateTradesKpis [tradeAt jan5 (Some 100) Loss None])
     = kpiWinRate (calculateTradesKpis [tradeAt jan1 (Some (- 3)) Loss None])"
proof -
  have run: "map (\<lambda>s. (weekday s, winsCount s, lossesCount s, breakevenCount s))
      (weekdayStats (aggregateTimeAnalytics
        [tradeAt jan5 (Some 100) Loss None, tradeAt jan5 (Some 0) Win None]))
     = [(5, 1, 0, 1)]"
    by (simp add: aggregateTimeAnalytics_def validTrades_def getEffectiveOpenTime_def
      getEffectiveCloseTime_def tradeAt_def accumulateBy_def upsert_def weekdayOf_def
      sessionOf_def bucketKeyOf_def emptyAcc_def addTrade_def orZero_def Let_def
      toWeekdayStat_def jan5_def jan1_def)
  have same: "map status [tradeAt jan5 (Some 100) Loss None]
      = map status [tradeAt jan1 (Some (- 3)) Loss None]"
    by (simp add: tradeAt_def)
  from classification_by_component [of "[tradeAt jan5 (Some 100) Loss None]"] same
  have "kpiWinRate (calculateTradesKpis [tradeAt jan5 (Some 100) Loss None])
     = kpiWinRate (calculateTradesKpis [tradeAt jan1 (Some (- 3)) Loss None])"
    by blast
  with run show ?thesis by simp
qed

end
